theory Spec2Isabelle
  imports Main "HOL-Library.Multiset" "HOL-Library.Char_ord" "HOL-Library.List_Lexorder"
begin

section \<open>JavaScript library primitives used by the extractor\<close>

text \<open>
  JavaScript strings are modelled as \<^typ>\<open>string\<close>; a \<^typ>\<open>char\<close> stands for a
  UTF-16 code unit below 256.  Exceptions are values of \<open>js_error\<close>.
\<close>

datatype js_error = ParseError | TypeError

text \<open>\<^verbatim>\<open>s.split(c)\<close> for a one-character separator; \<^verbatim>\<open>''.split('/')\<close> is \<^verbatim>\<open>['']\<close>.\<close>

fun splitOn :: "char \<Rightarrow> string \<Rightarrow> string list" where
  "splitOn c [] = [[]]"
| "splitOn c (x # xs) =
     (if x = c then [] # splitOn c xs
      else (case splitOn c xs of [] \<Rightarrow> [[x]] | p # ps \<Rightarrow> (x # p) # ps))"

text \<open>\<^verbatim>\<open>xs.join(sep)\<close>.\<close>

fun join :: "string \<Rightarrow> string list \<Rightarrow> string" where
  "join sep [] = []"
| "join sep [x] = x"
| "join sep (x # y # ys) = x @ sep @ join sep (y # ys)"

text \<open>\<^verbatim>\<open>xs.lastIndexOf(v)\<close>: scan from the last index down, \<open>-1\<close> when absent.\<close>

fun lastIndexFrom :: "'a list \<Rightarrow> 'a \<Rightarrow> nat \<Rightarrow> int" where
  "lastIndexFrom xs v 0 = - 1"
| "lastIndexFrom xs v (Suc k) = (if xs ! k = v then int k else lastIndexFrom xs v k)"

definition lastIndexOf :: "'a list \<Rightarrow> 'a \<Rightarrow> int" where
  "lastIndexOf xs v = lastIndexFrom xs v (length xs)"

text \<open>\<^verbatim>\<open>s.startsWith(p)\<close>, \<^verbatim>\<open>s.endsWith(p)\<close>.\<close>

definition startsWith :: "string \<Rightarrow> string \<Rightarrow> bool" where
  "startsWith s p = (take (length p) s = p)"

definition endsWith :: "string \<Rightarrow> string \<Rightarrow> bool" where
  "endsWith s p = (length p \<le> length s \<and> drop (length s - length p) s = p)"

text \<open>\<^verbatim>\<open>s.includes(t)\<close>: \<open>t\<close> occurs in \<open>s\<close> as a contiguous substring.\<close>

fun str_includes :: "string \<Rightarrow> string \<Rightarrow> bool" where
  "str_includes [] t = (t = [])"
| "str_includes (x # xs) t = (startsWith (x # xs) t \<or> str_includes xs t)"

text \<open>
  White space and line terminators of ECMAScript among the code units below 256:
  TAB, LF, VT, FF, CR, SP, NBSP; the line terminators are LF and CR.
\<close>

definition isWhiteSpace :: "char \<Rightarrow> bool" where
  "isWhiteSpace c = (of_char c \<in> {9, 10, 11, 12, 13, 32, 160 :: nat})"

definition isLineTerminator :: "char \<Rightarrow> bool" where
  "isLineTerminator c = (of_char c \<in> {10, 13 :: nat})"

text \<open>\<^verbatim>\<open>s.trim()\<close>.\<close>

definition trim :: "string \<Rightarrow> string" where
  "trim s = rev (dropWhile isWhiteSpace (rev (dropWhile isWhiteSpace s)))"

text \<open>
  \<^verbatim>\<open>xs.sort(cmp)\<close>.  The sort of ECMAScript is stable; it is modelled as a stable
  insertion sort, where an element is placed before the first element it does not
  compare greater than.
\<close>

fun insertBy :: "('a \<Rightarrow> 'a \<Rightarrow> int) \<Rightarrow> 'a \<Rightarrow> 'a list \<Rightarrow> 'a list" where
  "insertBy cmp x [] = [x]"
| "insertBy cmp x (y # ys) = (if cmp x y \<le> 0 then x # y # ys else y # insertBy cmp x ys)"

definition js_sort :: "('a \<Rightarrow> 'a \<Rightarrow> int) \<Rightarrow> 'a list \<Rightarrow> 'a list" where
  "js_sort cmp xs = foldr (insertBy cmp) xs []"

text \<open>
  \<^verbatim>\<open>a.localeCompare(b)\<close> is the collation of the host's locale.  It is a parameter
  \<open>lc\<close> of the model.  A collation is a total preorder on strings:
\<close>

definition collation :: "(string \<Rightarrow> string \<Rightarrow> int) \<Rightarrow> bool" where
  "collation lc =
     ((\<forall>a b. lc a b \<le> 0 \<or> lc b a \<le> 0) \<and>
      (\<forall>a b c. lc a b \<le> 0 \<longrightarrow> lc b c \<le> 0 \<longrightarrow> lc a c \<le> 0))"

text \<open>A sample collation, by code units, used to run the model on concrete inputs.\<close>

definition codeUnitCompare :: "string \<Rightarrow> string \<Rightarrow> int" where
  "codeUnitCompare a b = (if a < b then - 1 else if a = b then 0 else 1)"

section \<open>Module name derivation\<close>

text \<open>\<^verbatim>\<open>s.replace(/\.(ts|tsx|js|jsx)$/, '')\<close>: the match, if any, is a suffix of \<open>s\<close>.\<close>

definition replaceExtension :: "string \<Rightarrow> string" where
  "replaceExtension s =
     (if endsWith s ''.ts'' then take (length s - 3) s
      else if endsWith s ''.tsx'' then take (length s - 4) s
      else if endsWith s ''.js'' then take (length s - 3) s
      else if endsWith s ''.jsx'' then take (length s - 4) s
      else s)"

text \<open>
  \<^verbatim>\<open>deriveModuleName(filePath)\<close>.  When nothing follows the last \<^verbatim>\<open>src\<close> segment,
  \<^verbatim>\<open>afterSrc[afterSrc.length - 1]\<close> is \<^verbatim>\<open>undefined\<close> and \<^verbatim>\<open>last.replace\<close> throws.
\<close>

definition deriveModuleName :: "string \<Rightarrow> js_error + string" where
  "deriveModuleName filePath =
     (let parts = splitOn CHR ''/'' filePath;
          srcIndex = lastIndexOf parts ''src''
      in if srcIndex \<noteq> - 1 then
           (let afterSrc = drop (nat (srcIndex + 1)) parts
            in if afterSrc = [] then Inl TypeError
               else
                 (let afterSrc1 = afterSrc[length afterSrc - 1 := replaceExtension (last afterSrc)];
                      afterSrc2 = (if afterSrc1 ! (length afterSrc1 - 1) = ''index''
                                   then butlast afterSrc1 else afterSrc1)
                  in Inr (join ''.'' (filter (\<lambda>p. p \<noteq> []) afterSrc2))))
         else Inr (replaceExtension (parts ! (length parts - 1))))"

text \<open>
  The derivation in the words of the specification: the segments after the last
  \<^verbatim>\<open>src\<close> segment, the extension stripped from the final one, a final \<^verbatim>\<open>index\<close>
  dropped, the empty segments removed, joined with dots; without a \<^verbatim>\<open>src\<close> segment
  the bare file name without its extension.  The extension of a name is what follows its
  last dot, when that is one of the four recognized extensions.
\<close>

definition recognizedExtensions :: "string list" where
  "recognizedExtensions = [''ts'', ''tsx'', ''js'', ''jsx'']"

definition withoutExtension :: "string \<Rightarrow> string" where
  "withoutExtension name =
     (let ext = rev (takeWhile (\<lambda>c. c \<noteq> CHR ''.'') (rev name))
      in if CHR ''.'' \<in> set name \<and> ext \<in> set recognizedExtensions
         then take (length name - Suc (length ext)) name
         else name)"

definition segmentsAfterLast :: "string \<Rightarrow> string list \<Rightarrow> string list" where
  "segmentsAfterLast marker segs = rev (takeWhile (\<lambda>s. s \<noteq> marker) (rev segs))"

definition stripFinalExtension :: "string list \<Rightarrow> string list" where
  "stripFinalExtension segs =
     (case rev segs of [] \<Rightarrow> [] | l # init \<Rightarrow> rev init @ [withoutExtension l])"

definition dropFinalIndex :: "string list \<Rightarrow> string list" where
  "dropFinalIndex segs =
     (case rev segs of [] \<Rightarrow> [] | l # init \<Rightarrow> if l = ''index'' then rev init else segs)"

definition moduleNameSpec :: "string \<Rightarrow> string" where
  "moduleNameSpec path =
     (let segs = splitOn CHR ''/'' path
      in if ''src'' \<in> set segs
         then join ''.'' (filter (\<lambda>s. s \<noteq> [])
                (dropFinalIndex (stripFinalExtension (segmentsAfterLast ''src'' segs))))
         else withoutExtension (last segs))"

section \<open>The parser's nodes\<close>

text \<open>
  The parser is a collaborator: a node is the record of what its accessors return.
  An accessor that a node may lack (the source probes it with \<^verbatim>\<open>typeof\<close> or \<^verbatim>\<open>?.\<close>)
  has an optional field, \<open>None\<close> when the node has no such accessor.
\<close>

datatype syntax_kind =
  PrivateKeyword | ProtectedKeyword | PublicKeyword | StaticKeyword | ReadonlyKeyword
  | AsyncKeyword | ExportKeyword | DefaultKeyword | AbstractKeyword | DeclareKeyword

record comment_range =
  rangeText :: string
  rangeKind :: int
  rangePos :: int

text \<open>
  What \<^verbatim>\<open>tag.getComment()\<close> returns when it is defined: a string, or, for a comment
  with an inline \<^verbatim>\<open>{@link ...}\<close>, an array of nodes (text nodes and link nodes, each
  with its source text).
\<close>

datatype jsdoc_comment_node = JSDocText string | JSDocLink string

datatype comment_value = TextValue string | NodeArray "jsdoc_comment_node list"

record jsdoc_tag_node =
  tagName :: string
  tagComment :: "comment_value option"
  tagTypeExpression :: "string option option"

record jsdoc_node =
  docDescription :: string
  docTags :: "jsdoc_tag_node list"

record parameter_node =
  pnName :: string
  pnType :: string
  pnOptional :: bool
  pnInitializer :: "string option"

text \<open>A constructor, property or method of a class.\<close>

record member_node =
  mnName :: string
  mnModifiers :: "syntax_kind list option"
  mnType :: string
  mnStatic :: bool
  mnAsync :: bool
  mnParameters :: "parameter_node list"
  mnReturnType :: string
  mnCommentRanges :: "comment_range list"
  mnJsDocs :: "jsdoc_node list option"

record interface_member_node =
  imSymbolName :: "string option"
  imText :: string
  imCommentRanges :: "comment_range list"

datatype enum_value = EnumString string | EnumNumber int

record enum_member_node =
  emName :: string
  emValue :: "enum_value option"

text \<open>
  An exported declaration.  \<open>declGetName\<close> and \<open>declGetSymbol\<close> are \<open>None\<close> when the
  node has no such accessor and \<open>Some None\<close> when the accessor returns \<^verbatim>\<open>undefined\<close>;
  \<open>declBaseClass\<close> is \<open>Some n\<close> for a base class whose \<^verbatim>\<open>getName()\<close> is \<open>n\<close>.
\<close>

record decl_node =
  declKindName :: string
  declGetName :: "string option option"
  declGetSymbol :: "string option option"
  declModifiers :: "syntax_kind list option"
  declCommentRanges :: "comment_range list"
  declJsDocs :: "jsdoc_node list option"
  declText :: string
  declParameters :: "parameter_node list"
  declReturnType :: string
  declIsAsync :: "bool option"
  declType :: string
  declInitializer :: "string option"
  declBaseClass :: "string option option"
  declImplements :: "string list"
  declConstructors :: "member_node list"
  declProperties :: "member_node list"
  declMethods :: "member_node list"
  declInterfaceMembers :: "interface_member_node list"
  declEnumMembers :: "enum_member_node list"

record import_node =
  importModuleSpecifier :: string
  importNamed :: "string list"
  importDefault :: "string option"

record source_file =
  exportedDeclarations :: "(string \<times> decl_node list) list"
  importDeclarations :: "import_node list"
  defaultExportSymbol :: bool
  endLineNumber :: int

section \<open>The extraction result\<close>

record comment =
  c_type :: string
  c_text :: string
  c_start :: int

record jsdoc_tag =
  t_name :: string
  t_text :: comment_value
  t_type :: "string option"

record jsdoc =
  j_description :: string
  j_tags :: "jsdoc_tag list"

record type_info =
  raw :: string
  isGeneric :: bool
  typeParameters :: "string list"

record parameter =
  p_name :: string
  p_type :: string
  p_optional :: bool
  p_defaultValue :: "string option"
  p_comment :: "comment_value option"

record member_parameter =
  mp_name :: string
  mp_type :: string
  mp_optional :: bool

record member =
  m_kind :: string
  m_name :: string
  m_signature :: string
  m_visibility :: string
  m_isStatic :: bool
  m_isAsync :: "bool option"
  m_leadingComments :: "comment list"
  m_jsDoc :: "jsdoc option"
  m_parameters :: "member_parameter list option"
  m_returnType :: "string option"

record interface_property =
  ip_name :: string
  ip_signature :: string
  ip_leadingComments :: "comment list"

record enum_entry =
  e_name :: string
  e_value :: "enum_value option"

text \<open>The kind-specific fields of a symbol record; a field that is not set is absent.\<close>

datatype symbol_extra =
    NoFields
  | FunctionFields "parameter list" string bool
  | ClassFields "string option" "string list" "member list"
  | InterfaceFields "interface_property list"
  | TypeAliasFields type_info
  | ConstFields type_info "string option"
  | EnumFields "enum_entry list"

record symbol =
  s_kind :: string
  s_name :: string
  s_signature :: string
  s_leadingComments :: "comment list"
  s_jsDoc :: "jsdoc option"
  s_isPrivate :: bool
  s_fields :: symbol_extra

record import_record =
  i_module :: string
  i_namedImports :: "string list"
  i_defaultImport :: "string option"

record module_metadata =
  hasDefaultExport :: bool
  exportCount :: nat
  loc :: int

record extraction_result =
  r_module :: string
  r_filePath :: string
  r_exports :: "symbol list"
  r_imports :: "import_record list"
  r_metadata :: module_metadata

section \<open>Comments and documentation blocks\<close>

definition extractComments :: "comment_range list \<Rightarrow> comment list" where
  "extractComments leadingRanges =
     map (\<lambda>range. \<lparr> c_type = (if rangeKind range = 2 then ''single-line'' else ''multi-line''),
                    c_text = rangeText range,
                    c_start = rangePos range \<rparr>) leadingRanges"

text \<open>
  \<^verbatim>\<open>extractJSDoc\<close>, on the node's \<^verbatim>\<open>getJsDocs\<close>: \<open>None\<close> is \<^verbatim>\<open>undefined\<close>.
  \<^verbatim>\<open>tag.getComment() || ''\<close> turns an absent or empty comment into the empty string
  and keeps anything else as it is: an array, even an empty one, is truthy and is stored
  unconverted.
\<close>

definition extractJSDoc :: "jsdoc_node list option \<Rightarrow> jsdoc option" where
  "extractJSDoc getJsDocs =
     (case getJsDocs of
        None \<Rightarrow> None
      | Some jsDocs \<Rightarrow>
          (case jsDocs of
             [] \<Rightarrow> None
           | doc # _ \<Rightarrow>
               Some \<lparr> j_description = trim (docDescription doc),
                      j_tags = map (\<lambda>tag.
                         \<lparr> t_name = tagName tag,
                           t_text = (case tagComment tag of
                                       None \<Rightarrow> TextValue []
                                     | Some (TextValue c) \<Rightarrow>
                                         if c \<noteq> [] then TextValue c else TextValue []
                                     | Some (NodeArray nodes) \<Rightarrow> NodeArray nodes),
                           t_type = (case tagTypeExpression tag of
                                       Some (Some ty) \<Rightarrow> Some ty
                                     | _ \<Rightarrow> None) \<rparr>) (docTags doc) \<rparr>))"

text \<open>
  \<^verbatim>\<open>tag.text.includes(paramName)\<close>: on a string the substring test; on an array the
  membership test of \<^verbatim>\<open>Array.prototype.includes\<close>, which no node passes, since a node is
  never equal to a string.
\<close>

fun valueIncludes :: "comment_value \<Rightarrow> string \<Rightarrow> bool" where
  "valueIncludes (TextValue t) paramName = str_includes t paramName"
| "valueIncludes (NodeArray nodes) paramName = False"

definition extractParamComment :: "jsdoc option \<Rightarrow> string \<Rightarrow> comment_value option" where
  "extractParamComment jsDoc paramName =
     (case jsDoc of
        None \<Rightarrow> None
      | Some d \<Rightarrow>
          (case List.find (\<lambda>tag. t_name tag = ''param'' \<and> valueIncludes (t_text tag) paramName)
                  (j_tags d) of
             None \<Rightarrow> None
           | Some paramTag \<Rightarrow> Some (t_text paramTag)))"

section \<open>Type information\<close>

text \<open>
  \<^verbatim>\<open>typeStr.match(/<(.+)>$/)\<close>, returning the captured group: the match starts at the
  leftmost \<^verbatim>\<open><\<close> that is followed by at least one character other than a line
  terminator and then by a \<^verbatim>\<open>>\<close> that ends the string.
\<close>

fun matchTypeArguments :: "string \<Rightarrow> string option" where
  "matchTypeArguments [] = None"
| "matchTypeArguments (c # cs) =
     (if c = CHR ''<'' \<and> cs \<noteq> [] \<and> last cs = CHR ''>'' \<and> butlast cs \<noteq> []
         \<and> list_all (\<lambda>x. \<not> isLineTerminator x) (butlast cs)
      then Some (butlast cs)
      else matchTypeArguments cs)"

definition extractTypeParameters :: "string \<Rightarrow> string list" where
  "extractTypeParameters typeStr =
     (if \<not> str_includes typeStr ''<'' then []
      else (case matchTypeArguments typeStr of
              None \<Rightarrow> []
            | Some m \<Rightarrow> map trim (splitOn CHR '','' m)))"

definition extractTypeInfo :: "string \<Rightarrow> type_info" where
  "extractTypeInfo rawText =
     \<lparr> raw = rawText,
       isGeneric = str_includes rawText ''<'',
       typeParameters = extractTypeParameters rawText \<rparr>"

text \<open>
  The type parameters in the words of the specification: the text between the first
  \<^verbatim>\<open><\<close> and the final \<^verbatim>\<open>>\<close>, split on commas, each piece trimmed; none without a
  \<^verbatim>\<open><\<close>.
\<close>

definition betweenFirstAndFinal :: "string \<Rightarrow> string" where
  "betweenFirstAndFinal s =
     rev (tl (dropWhile (\<lambda>c. c \<noteq> CHR ''>'') (rev (tl (dropWhile (\<lambda>c. c \<noteq> CHR ''<'') s)))))"

definition typeParametersSpec :: "string \<Rightarrow> string list" where
  "typeParametersSpec rawText =
     (if CHR ''<'' \<notin> set rawText then []
      else map trim (splitOn CHR '','' (betweenFirstAndFinal rawText)))"

section \<open>Signatures\<close>

text \<open>
  A template literal renders \<^verbatim>\<open>undefined\<close> as the text \<^verbatim>\<open>undefined\<close>.  Where the
  source calls \<^verbatim>\<open>getName()\<close> without probing, the node is of a kind that has the
  accessor, and \<open>callGetName\<close> is what it returns.
\<close>

definition render :: "string option \<Rightarrow> string" where
  "render v = (case v of None \<Rightarrow> ''undefined'' | Some t \<Rightarrow> t)"

definition callGetName :: "decl_node \<Rightarrow> string option" where
  "callGetName decl = (case declGetName decl of None \<Rightarrow> None | Some n \<Rightarrow> n)"

definition renderParameter :: "parameter_node \<Rightarrow> string" where
  "renderParameter p =
     (let pName = pnName p; pType = pnType p;
          optional = (if pnOptional p then ''?'' else [])
      in pName @ optional @ '': '' @ pType)"

definition buildFunctionSignature :: "decl_node \<Rightarrow> string" where
  "buildFunctionSignature decl =
     (let name = (case declGetName decl of
                    Some (Some n) \<Rightarrow> if n \<noteq> [] then n else ''anonymous''
                  | _ \<Rightarrow> ''anonymous'');
          params = join '', '' (map renderParameter (declParameters decl));
          returnType = declReturnType decl;
          isAsync = (if declIsAsync decl = Some True then ''async '' else [])
      in isAsync @ ''function '' @ name @ ''('' @ params @ ''): '' @ returnType)"

definition buildClassSignature :: "decl_node \<Rightarrow> string" where
  "buildClassSignature decl =
     (let name = callGetName decl;
          sig0 = ''class '' @ render name;
          sig1 = (case declBaseClass decl of
                    None \<Rightarrow> sig0
                  | Some baseName \<Rightarrow> sig0 @ '' extends '' @ render baseName);
          sig2 = (if length (declImplements decl) > 0
                  then sig1 @ '' implements '' @ join '', '' (declImplements decl)
                  else sig1)
      in sig2)"

definition buildInterfaceSignature :: "decl_node \<Rightarrow> string" where
  "buildInterfaceSignature decl =
     (let name = callGetName decl;
          members = declInterfaceMembers decl;
          memberSigs = join ''; '' (map imText (take 3 members));
          more = (if length members > 3 then ''; ...'' else [])
      in ''interface '' @ render name @ '' { '' @ memberSigs @ more @ '' }'')"

definition buildTypeAliasSignature :: "decl_node \<Rightarrow> string" where
  "buildTypeAliasSignature decl =
     ''type '' @ render (callGetName decl) @ '' = '' @ declType decl"

definition buildVariableSignature :: "decl_node \<Rightarrow> string" where
  "buildVariableSignature decl =
     (let name = callGetName decl; ty = declType decl
      in case declInitializer decl of
           Some initText \<Rightarrow>
             if length initText < 50
             then ''const '' @ render name @ '': '' @ ty @ '' = '' @ initText
             else ''const '' @ render name @ '': '' @ ty
         | None \<Rightarrow> ''const '' @ render name @ '': '' @ ty)"

definition buildSignature :: "decl_node \<Rightarrow> string" where
  "buildSignature decl =
     (let kind = declKindName decl
      in if kind = ''FunctionDeclaration'' \<or> kind = ''MethodDeclaration''
            \<or> kind = ''ArrowFunction'' then buildFunctionSignature decl
         else if kind = ''ClassDeclaration'' then buildClassSignature decl
         else if kind = ''InterfaceDeclaration'' then buildInterfaceSignature decl
         else if kind = ''TypeAliasDeclaration'' then buildTypeAliasSignature decl
         else if kind = ''VariableDeclaration'' then buildVariableSignature decl
         else if kind = ''EnumDeclaration'' then ''enum '' @ render (callGetName decl)
         else take 100 (declText decl))"

definition renderMemberParameter :: "parameter_node \<Rightarrow> string" where
  "renderMemberParameter p =
     (let name = pnName p; ty = pnType p;
          optional = (if pnOptional p then ''?'' else [])
      in name @ optional @ '': '' @ ty)"

definition buildConstructorSignature :: "member_node \<Rightarrow> string" where
  "buildConstructorSignature ctor =
     (let params = join '', '' (map renderMemberParameter (mnParameters ctor))
      in ''constructor('' @ params @ '')'')"

definition buildMethodSignature :: "member_node \<Rightarrow> string" where
  "buildMethodSignature method =
     (let name = mnName method;
          params = join '', '' (map renderMemberParameter (mnParameters method));
          returnType = mnReturnType method
      in name @ ''('' @ params @ ''): '' @ returnType)"

section \<open>Classification of a declaration\<close>

definition getName :: "decl_node \<Rightarrow> string" where
  "getName decl =
     (case (case declGetName decl of
              Some (Some name) \<Rightarrow> if name \<noteq> [] then Some name else None
            | _ \<Rightarrow> None) of
        Some name \<Rightarrow> name
      | None \<Rightarrow>
          (case declGetSymbol decl of
             Some (Some symbolName) \<Rightarrow> symbolName
           | _ \<Rightarrow> ''default''))"

definition checkPrivacy :: "decl_node \<Rightarrow> bool" where
  "checkPrivacy decl =
     (case declModifiers decl of
        Some ms \<Rightarrow>
          if PrivateKeyword \<in> set ms then True
          else if ProtectedKeyword \<in> set ms then True
          else startsWith (getName decl) ''_''
      | None \<Rightarrow> startsWith (getName decl) ''_'')"

text \<open>
  \<^verbatim>\<open>mapKind\<close>: the lookup in the table, \<^verbatim>\<open>unknown\<close> for a kind name that is not a
  key.  The kind names are the parser's names of syntax kinds.
\<close>

definition mapKind :: "string \<Rightarrow> string" where
  "mapKind kindName =
     (case map_of
        [(''FunctionDeclaration'', ''function''),
         (''ArrowFunction'', ''function''),
         (''MethodDeclaration'', ''function''),
         (''ClassDeclaration'', ''class''),
         (''InterfaceDeclaration'', ''interface''),
         (''TypeAliasDeclaration'', ''type''),
         (''VariableDeclaration'', ''const''),
         (''EnumDeclaration'', ''enum'')] kindName of
        Some k \<Rightarrow> k
      | None \<Rightarrow> ''unknown'')"

definition getVisibility :: "member_node \<Rightarrow> string" where
  "getVisibility m =
     (case mnModifiers m of
        None \<Rightarrow> ''public''
      | Some ms \<Rightarrow>
          if PrivateKeyword \<in> set ms then ''private''
          else if ProtectedKeyword \<in> set ms then ''protected''
          else ''public'')"

section \<open>Kind-specific extraction\<close>

definition extractFunction :: "decl_node \<Rightarrow> symbol \<Rightarrow> symbol" where
  "extractFunction decl symbol =
     symbol \<lparr> s_fields :=
       FunctionFields
         (map (\<lambda>p. \<lparr> p_name = pnName p,
                     p_type = pnType p,
                     p_optional = pnOptional p,
                     p_defaultValue = pnInitializer p,
                     p_comment = extractParamComment (s_jsDoc symbol) (pnName p) \<rparr>)
              (declParameters decl))
         (declReturnType decl)
         (case declIsAsync decl of None \<Rightarrow> False | Some b \<Rightarrow> b) \<rparr>"

definition memberParameters :: "member_node \<Rightarrow> member_parameter list" where
  "memberParameters m =
     map (\<lambda>p. \<lparr> mp_name = pnName p, mp_type = pnType p, mp_optional = pnOptional p \<rparr>)
         (mnParameters m)"

definition constructorMember :: "member_node \<Rightarrow> member" where
  "constructorMember ctor =
     \<lparr> m_kind = ''constructor'',
       m_name = ''constructor'',
       m_signature = buildConstructorSignature ctor,
       m_visibility = ''public'',
       m_isStatic = False,
       m_isAsync = None,
       m_leadingComments = extractComments (mnCommentRanges ctor),
       m_jsDoc = extractJSDoc (mnJsDocs ctor),
       m_parameters = Some (memberParameters ctor),
       m_returnType = None \<rparr>"

definition propertyMember :: "member_node \<Rightarrow> string \<Rightarrow> member" where
  "propertyMember prop vis =
     \<lparr> m_kind = ''property'',
       m_name = mnName prop,
       m_signature = mnName prop @ '': '' @ mnType prop,
       m_visibility = vis,
       m_isStatic = mnStatic prop,
       m_isAsync = None,
       m_leadingComments = extractComments (mnCommentRanges prop),
       m_jsDoc = extractJSDoc (mnJsDocs prop),
       m_parameters = None,
       m_returnType = None \<rparr>"

definition methodMember :: "member_node \<Rightarrow> string \<Rightarrow> member" where
  "methodMember method vis =
     \<lparr> m_kind = ''method'',
       m_name = mnName method,
       m_signature = buildMethodSignature method,
       m_visibility = vis,
       m_isStatic = mnStatic method,
       m_isAsync = Some (mnAsync method),
       m_leadingComments = extractComments (mnCommentRanges method),
       m_jsDoc = extractJSDoc (mnJsDocs method),
       m_parameters = Some (memberParameters method),
       m_returnType = Some (mnReturnType method) \<rparr>"

text \<open>The comparator of \<^verbatim>\<open>symbol.members.sort\<close>.\<close>

definition compareMembers :: "(string \<Rightarrow> string \<Rightarrow> int) \<Rightarrow> member \<Rightarrow> member \<Rightarrow> int" where
  "compareMembers lc a b =
     (if m_kind a = ''constructor'' then - 1
      else if m_kind b = ''constructor'' then 1
      else if m_kind a \<noteq> m_kind b then (if m_kind a = ''property'' then - 1 else 1)
      else lc (m_name a) (m_name b))"

text \<open>
  \<^verbatim>\<open>extractClass\<close>: the first constructor, then the loop over the properties and the
  loop over the methods, each skipping (\<^verbatim>\<open>continue\<close>) a member that is not public
  under the public variant, then the sort.
\<close>

definition pushProperties :: "string \<Rightarrow> member_node list \<Rightarrow> member list" where
  "pushProperties variant props =
     concat (map (\<lambda>prop.
       let vis = getVisibility prop
       in if variant = ''public'' \<and> vis \<noteq> ''public'' then []
          else [propertyMember prop vis]) props)"

definition pushMethods :: "string \<Rightarrow> member_node list \<Rightarrow> member list" where
  "pushMethods variant methods =
     concat (map (\<lambda>method.
       let vis = getVisibility method
       in if variant = ''public'' \<and> vis \<noteq> ''public'' then []
          else [methodMember method vis]) methods)"

definition extractClass ::
  "(string \<Rightarrow> string \<Rightarrow> int) \<Rightarrow> decl_node \<Rightarrow> symbol \<Rightarrow> string \<Rightarrow> symbol" where
  "extractClass lc decl symbol variant =
     (let baseClass = (case declBaseClass decl of None \<Rightarrow> None | Some n \<Rightarrow> n);
          interfaces = declImplements decl;
          members0 = (case declConstructors decl of
                        [] \<Rightarrow> []
                      | ctor # _ \<Rightarrow> [constructorMember ctor]);
          members1 = members0 @ pushProperties variant (declProperties decl);
          members2 = members1 @ pushMethods variant (declMethods decl)
      in symbol \<lparr> s_fields :=
           ClassFields baseClass interfaces (js_sort (compareMembers lc) members2) \<rparr>)"

definition extractInterface :: "decl_node \<Rightarrow> symbol \<Rightarrow> symbol" where
  "extractInterface decl symbol =
     symbol \<lparr> s_fields :=
       InterfaceFields
         (map (\<lambda>m. \<lparr> ip_name = (case imSymbolName m of
                                   Some n \<Rightarrow> if n \<noteq> [] then n else ''unknown''
                                 | None \<Rightarrow> ''unknown''),
                     ip_signature = imText m,
                     ip_leadingComments = extractComments (imCommentRanges m) \<rparr>)
              (declInterfaceMembers decl)) \<rparr>"

definition extractTypeAlias :: "decl_node \<Rightarrow> symbol \<Rightarrow> symbol" where
  "extractTypeAlias decl symbol =
     symbol \<lparr> s_fields := TypeAliasFields (extractTypeInfo (declType decl)) \<rparr>"

definition extractConst :: "decl_node \<Rightarrow> symbol \<Rightarrow> symbol" where
  "extractConst decl symbol =
     symbol \<lparr> s_fields := ConstFields (extractTypeInfo (declType decl)) (declInitializer decl) \<rparr>"

definition extractEnum :: "decl_node \<Rightarrow> symbol \<Rightarrow> symbol" where
  "extractEnum decl symbol =
     symbol \<lparr> s_fields :=
       EnumFields (map (\<lambda>m. \<lparr> e_name = emName m, e_value = emValue m \<rparr>)
                       (declEnumMembers decl)) \<rparr>"

text \<open>\<^verbatim>\<open>extractSymbol\<close>: \<open>None\<close> is the \<^verbatim>\<open>null\<close> of a filtered declaration.\<close>

definition extractSymbol ::
  "(string \<Rightarrow> string \<Rightarrow> int) \<Rightarrow> decl_node \<Rightarrow> string \<Rightarrow> symbol option" where
  "extractSymbol lc decl variant =
     (let kind = declKindName decl;
          isPrivate = checkPrivacy decl
      in if variant = ''public'' \<and> isPrivate then None
         else
           (let leadingComments = extractComments (declCommentRanges decl);
                jsDoc = extractJSDoc (declJsDocs decl);
                symbol = \<lparr> s_kind = mapKind kind,
                           s_name = getName decl,
                           s_signature = buildSignature decl,
                           s_leadingComments = leadingComments,
                           s_jsDoc = jsDoc,
                           s_isPrivate = isPrivate,
                           s_fields = NoFields \<rparr>
            in Some
                 (if s_kind symbol = ''function'' then extractFunction decl symbol
                  else if s_kind symbol = ''class'' then extractClass lc decl symbol variant
                  else if s_kind symbol = ''interface'' then extractInterface decl symbol
                  else if s_kind symbol = ''type'' then extractTypeAlias decl symbol
                  else if s_kind symbol = ''const'' then extractConst decl symbol
                  else if s_kind symbol = ''enum'' then extractEnum decl symbol
                  else symbol)))"

section \<open>The module extraction\<close>

definition kindOrder :: "string \<Rightarrow> int option" where
  "kindOrder = map_of
     [(''type'', 0), (''interface'', 1), (''const'', 2),
      (''function'', 3), (''class'', 4), (''enum'', 5)]"

definition kindPriority :: "string \<Rightarrow> int" where
  "kindPriority k = (case kindOrder k of Some n \<Rightarrow> n | None \<Rightarrow> 99)"

text \<open>The comparator of \<^verbatim>\<open>symbols.sort\<close>.\<close>

definition compareSymbols :: "(string \<Rightarrow> string \<Rightarrow> int) \<Rightarrow> symbol \<Rightarrow> symbol \<Rightarrow> int" where
  "compareSymbols lc a b =
     (let aOrder = kindPriority (s_kind a);
          bOrder = kindPriority (s_kind b)
      in if aOrder \<noteq> bOrder then aOrder - bOrder
         else lc (s_name a) (s_name b))"

definition extractImports :: "source_file \<Rightarrow> import_record list" where
  "extractImports sourceFile =
     map (\<lambda>importDecl. \<lparr> i_module = importModuleSpecifier importDecl,
                         i_namedImports = importNamed importDecl,
                         i_defaultImport = importDefault importDecl \<rparr>)
         (importDeclarations sourceFile)"

text \<open>
  \<^verbatim>\<open>extractModule\<close>.  \<open>project\<close> is the parser: the source file it loads at a path,
  \<open>None\<close> when it throws.  The double loop pushes the symbol of every declaration
  that \<^verbatim>\<open>extractSymbol\<close> does not filter.
\<close>

definition pushSymbols ::
  "(string \<Rightarrow> string \<Rightarrow> int) \<Rightarrow> string \<Rightarrow> (string \<times> decl_node list) list \<Rightarrow> symbol list" where
  "pushSymbols lc variant entries =
     concat (map (\<lambda>(name, declarations).
       concat (map (\<lambda>decl.
         case extractSymbol lc decl variant of
           None \<Rightarrow> []
         | Some symbol \<Rightarrow> [symbol]) declarations)) entries)"

definition extractModule ::
  "(string \<Rightarrow> string \<Rightarrow> int) \<Rightarrow> (string \<Rightarrow> source_file option) \<Rightarrow> string \<Rightarrow> string
     \<Rightarrow> js_error + extraction_result" where
  "extractModule lc project filePath variant =
     (case project filePath of
        None \<Rightarrow> Inl ParseError
      | Some sourceFile \<Rightarrow>
          (let symbols = js_sort (compareSymbols lc)
                           (pushSymbols lc variant (exportedDeclarations sourceFile))
           in case deriveModuleName filePath of
                Inl e \<Rightarrow> Inl e
              | Inr moduleName \<Rightarrow>
                  Inr \<lparr> r_module = moduleName,
                        r_filePath = filePath,
                        r_exports = symbols,
                        r_imports = extractImports sourceFile,
                        r_metadata = \<lparr> hasDefaultExport = defaultExportSymbol sourceFile,
                                       exportCount = length symbols,
                                       loc = endLineNumber sourceFile \<rparr> \<rparr>))"

text \<open>Readers used to state properties of the result.\<close>

definition membersOf :: "symbol \<Rightarrow> member list" where
  "membersOf s = (case s_fields s of ClassFields _ _ ms \<Rightarrow> ms | _ \<Rightarrow> [])"

definition allDeclarations :: "source_file \<Rightarrow> decl_node list" where
  "allDeclarations sourceFile = concat (map snd (exportedDeclarations sourceFile))"

section \<open>Predicates and sample inputs for the properties\<close>

definition preorderOn :: "'a set \<Rightarrow> ('a \<Rightarrow> 'a \<Rightarrow> int) \<Rightarrow> bool" where
  "preorderOn S cmp =
     ((\<forall>a\<in>S. \<forall>b\<in>S. cmp a b \<le> 0 \<or> cmp b a \<le> 0) \<and>
      (\<forall>a\<in>S. \<forall>b\<in>S. \<forall>c\<in>S. cmp a b \<le> 0 \<longrightarrow> cmp b c \<le> 0 \<longrightarrow> cmp a c \<le> 0))"

definition symbolBefore :: "(string \<Rightarrow> string \<Rightarrow> int) \<Rightarrow> symbol \<Rightarrow> symbol \<Rightarrow> bool" where
  "symbolBefore lc a b =
     (kindPriority (s_kind a) < kindPriority (s_kind b)
      \<or> (s_kind a = s_kind b \<and> lc (s_name a) (s_name b) \<le> 0))"

definition exampleDecl :: "string \<Rightarrow> string \<Rightarrow> decl_node" where
  "exampleDecl kindName name =
     \<lparr> declKindName = kindName, declGetName = Some (Some name), declGetSymbol = Some (Some name),
       declModifiers = Some [ExportKeyword], declCommentRanges = [], declJsDocs = Some [],
       declText = [], declParameters = [], declReturnType = ''void'', declIsAsync = None,
       declType = ''any'', declInitializer = None, declBaseClass = None, declImplements = [],
       declConstructors = [], declProperties = [], declMethods = [],
       declInterfaceMembers = [], declEnumMembers = [] \<rparr>"

definition exampleFile :: source_file where
  "exampleFile =
     \<lparr> exportedDeclarations =
         [(''greet'', [exampleDecl ''FunctionDeclaration'' ''greet'']),
          (''UserConfig'', [exampleDecl ''InterfaceDeclaration'' ''UserConfig'']),
          (''API_URL'', [exampleDecl ''VariableDeclaration'' ''API_URL'']),
          (''User'', [exampleDecl ''TypeAliasDeclaration'' ''User'']),
          (''DatabaseClient'', [exampleDecl ''ClassDeclaration'' ''DatabaseClient'']),
          (''Status'', [exampleDecl ''EnumDeclaration'' ''Status''])],
       importDeclarations = [], defaultExportSymbol = False, endLineNumber = 88 \<rparr>"

definition memberBefore :: "(string \<Rightarrow> string \<Rightarrow> int) \<Rightarrow> member \<Rightarrow> member \<Rightarrow> bool" where
  "memberBefore lc a b =
     (m_kind a = ''constructor''
      \<or> (m_kind a = ''property'' \<and> m_kind b = ''method'')
      \<or> (m_kind a = m_kind b \<and> lc (m_name a) (m_name b) \<le> 0))"

definition exampleMember :: "string \<Rightarrow> syntax_kind list \<Rightarrow> member_node" where
  "exampleMember name modifiers =
     \<lparr> mnName = name, mnModifiers = Some modifiers, mnType = ''string'', mnStatic = False,
       mnAsync = False, mnParameters = [], mnReturnType = ''void'', mnCommentRanges = [],
       mnJsDocs = Some [] \<rparr>"

definition exampleClass :: decl_node where
  "exampleClass =
     (exampleDecl ''ClassDeclaration'' ''DatabaseClient'')
       \<lparr> declProperties := [exampleMember ''connectionString'' []],
         declMethods := [exampleMember ''query'' [], exampleMember ''connect'' []] \<rparr>"

definition classMembers :: "(string \<Rightarrow> string \<Rightarrow> int) \<Rightarrow> decl_node \<Rightarrow> string \<Rightarrow> member list" where
  "classMembers lc decl variant =
     js_sort (compareMembers lc)
       ((case declConstructors decl of [] \<Rightarrow> [] | ctor # _ \<Rightarrow> [constructorMember ctor])
        @ pushProperties variant (declProperties decl) @ pushMethods variant (declMethods decl))"

definition plainKind :: "member \<Rightarrow> bool" where
  "plainKind m = (m_kind m = ''property'' \<or> m_kind m = ''method'')"

definition storeClass :: decl_node where
  "storeClass =
     (exampleDecl ''ClassDeclaration'' ''Store'')
       \<lparr> declConstructors := [exampleMember ''constructor'' [PrivateKeyword]],
         declProperties := [exampleMember ''_cache'' [], exampleMember ''secret'' [PrivateKeyword]],
         declMethods := [exampleMember ''load'' [], exampleMember ''reset'' [ProtectedKeyword]] \<rparr>"

definition baseSymbol :: "decl_node \<Rightarrow> symbol" where
  "baseSymbol decl =
     \<lparr> s_kind = mapKind (declKindName decl),
       s_name = getName decl,
       s_signature = buildSignature decl,
       s_leadingComments = extractComments (declCommentRanges decl),
       s_jsDoc = extractJSDoc (declJsDocs decl),
       s_isPrivate = checkPrivacy decl,
       s_fields = NoFields \<rparr>"

definition mixedFile :: source_file where
  "mixedFile =
     \<lparr> exportedDeclarations =
         [(''greet'', [exampleDecl ''FunctionDeclaration'' ''greet'']),
          (''_helper'', [exampleDecl ''FunctionDeclaration'' ''_helper'']),
          (''Store'', [storeClass])],
       importDeclarations = [], defaultExportSymbol = False, endLineNumber = 40 \<rparr>"

definition dispatch :: "(string \<Rightarrow> string \<Rightarrow> int) \<Rightarrow> decl_node \<Rightarrow> string \<Rightarrow> symbol" where
  "dispatch lc decl variant =
     (let symbol = baseSymbol decl
      in if s_kind symbol = ''function'' then extractFunction decl symbol
         else if s_kind symbol = ''class'' then extractClass lc decl symbol variant
         else if s_kind symbol = ''interface'' then extractInterface decl symbol
         else if s_kind symbol = ''type'' then extractTypeAlias decl symbol
         else if s_kind symbol = ''const'' then extractConst decl symbol
         else if s_kind symbol = ''enum'' then extractEnum decl symbol
         else symbol)"

definition firstConstructor :: "decl_node \<Rightarrow> member list" where
  "firstConstructor decl =
     (case declConstructors decl of [] \<Rightarrow> [] | ctor # _ \<Rightarrow> [constructorMember ctor])"

definition restricted :: "member_node \<Rightarrow> bool" where
  "restricted m =
     (case mnModifiers m of
        None \<Rightarrow> False
      | Some ms \<Rightarrow> PrivateKeyword \<in> set ms \<or> ProtectedKeyword \<in> set ms)"

definition paramTagFor :: "string \<Rightarrow> jsdoc_tag \<Rightarrow> bool" where
  "paramTagFor paramName tag = (t_name tag = ''param'' \<and> valueIncludes (t_text tag) paramName)"

definition userIdDoc :: jsdoc where
  "userIdDoc =
     \<lparr> j_description = ''Fetch a user'',
       j_tags = [\<lparr> t_name = ''returns'', t_text = TextValue ''the id record'', t_type = None \<rparr>,
                 \<lparr> t_name = ''param'', t_text = TextValue ''userId - the id of the user'',
                   t_type = None \<rparr>,
                 \<lparr> t_name = ''param'', t_text = TextValue ''id - unused'', t_type = None \<rparr>] \<rparr>"

definition emptyDocBlock :: jsdoc_node where
  "emptyDocBlock = \<lparr> docDescription = [], docTags = [] \<rparr>"

definition sampleDocBlock :: jsdoc_node where
  "sampleDocBlock =
     \<lparr> docDescription = [CHR 0x0A] @ ''Greets a user by name '',
       docTags = [\<lparr> tagName = ''param'', tagComment = Some (TextValue ''- The user name''),
                    tagTypeExpression = Some (Some ''{string}'') \<rparr>,
                  \<lparr> tagName = ''deprecated'', tagComment = None, tagTypeExpression = None \<rparr>] \<rparr>"

definition linkedDocBlock :: jsdoc_node where
  "linkedDocBlock =
     \<lparr> docDescription = ''Greets a user by name'',
       docTags = [\<lparr> tagName = ''deprecated'',
                    tagComment = Some (NodeArray [JSDocText ''Use '', JSDocLink ''{@link greet}'',
                                                  JSDocText '' instead'']),
                    tagTypeExpression = None \<rparr>] \<rparr>"

definition tagTexts :: "jsdoc \<Rightarrow> comment_value list" where
  "tagTexts j = map t_text (j_tags j)"

definition memberNames :: "symbol \<Rightarrow> string list" where
  "memberNames s = map m_name (membersOf s)"

section \<open>The stable sort\<close>

lemma mset_insertBy: "mset (insertBy cmp x xs) = add_mset x (mset xs)"
  by (induction xs) auto

lemma mset_js_sort: "mset (js_sort cmp xs) = mset xs"
  unfolding js_sort_def by (induction xs) (auto simp: mset_insertBy)

lemma set_insertBy: "set (insertBy cmp x xs) = insert x (set xs)"
  by (induction xs) auto

lemma set_js_sort: "set (js_sort cmp xs) = set xs"
  unfolding js_sort_def by (induction xs) (auto simp: set_insertBy)

lemma length_js_sort: "length (js_sort cmp xs) = length xs"
  by (metis mset_js_sort size_mset)

lemma sorted_insertBy:
  assumes "preorderOn S cmp" "x \<in> S" "set ys \<subseteq> S"
    and "sorted_wrt (\<lambda>a b. cmp a b \<le> 0) ys"
  shows "sorted_wrt (\<lambda>a b. cmp a b \<le> 0) (insertBy cmp x ys)"
  using assms(3,4)
proof (induction ys)
  case Nil
  then show ?case by simp
next
  case (Cons y ys)
  have tot: "\<And>a b. a \<in> S \<Longrightarrow> b \<in> S \<Longrightarrow> cmp a b \<le> 0 \<or> cmp b a \<le> 0"
    and trans: "\<And>a b c. a \<in> S \<Longrightarrow> b \<in> S \<Longrightarrow> c \<in> S \<Longrightarrow> cmp a b \<le> 0 \<Longrightarrow> cmp b c \<le> 0 \<Longrightarrow> cmp a c \<le> 0"
    using assms(1) unfolding preorderOn_def by blast+
  have yS: "y \<in> S" and ysS: "set ys \<subseteq> S" using Cons.prems(1) by auto
  show ?case
  proof (cases "cmp x y \<le> 0")
    case True
    have "cmp x z \<le> 0" if "z \<in> set ys" for z
    proof -
      have "cmp y z \<le> 0" using Cons.prems(2) that by simp
      then show ?thesis using trans[of x y z] True that assms(2) yS ysS by auto
    qed
    then show ?thesis using True Cons.prems(2) by simp
  next
    case False
    have yx: "cmp y x \<le> 0" using tot[of x y] False assms(2) yS by simp
    have ih: "sorted_wrt (\<lambda>a b. cmp a b \<le> 0) (insertBy cmp x ys)"
      using Cons.IH ysS Cons.prems(2) by simp
    show ?thesis using False yx ih Cons.prems(2) by (auto simp: set_insertBy)
  qed
qed

lemma sorted_js_sort:
  assumes "preorderOn S cmp" "set xs \<subseteq> S"
  shows "sorted_wrt (\<lambda>a b. cmp a b \<le> 0) (js_sort cmp xs)"
  using assms(2)
proof (induction xs)
  case Nil
  then show ?case by (simp add: js_sort_def)
next
  case (Cons x xs)
  have "sorted_wrt (\<lambda>a b. cmp a b \<le> 0) (js_sort cmp xs)" using Cons by simp
  moreover have "set (js_sort cmp xs) \<subseteq> S" using Cons.prems by (simp add: set_js_sort)
  ultimately have "sorted_wrt (\<lambda>a b. cmp a b \<le> 0) (insertBy cmp x (js_sort cmp xs))"
    using sorted_insertBy[OF assms(1)] Cons.prems by simp
  then show ?case by (simp add: js_sort_def)
qed

section \<open>Ordering of the exports\<close>

lemma kindPriority_values:
  "kindPriority ''type'' = 0" "kindPriority ''interface'' = 1" "kindPriority ''const'' = 2"
  "kindPriority ''function'' = 3" "kindPriority ''class'' = 4" "kindPriority ''enum'' = 5"
  "kindPriority ''unknown'' = 99"
  by (simp_all add: kindPriority_def kindOrder_def)

lemma mapKind_cases:
  "mapKind k \<in> {''type'', ''interface'', ''const'', ''function'', ''class'', ''enum'', ''unknown''}"
  by (simp add: mapKind_def)

lemma compareSymbols_le:
  "compareSymbols lc a b \<le> 0 \<longleftrightarrow>
     kindPriority (s_kind a) < kindPriority (s_kind b)
     \<or> (kindPriority (s_kind a) = kindPriority (s_kind b) \<and> lc (s_name a) (s_name b) \<le> 0)"
  by (auto simp: compareSymbols_def Let_def)

lemma preorder_compareSymbols:
  assumes "collation lc"
  shows "preorderOn UNIV (compareSymbols lc)"
proof -
  have tot: "lc x y \<le> 0 \<or> lc y x \<le> 0" for x y
    using assms unfolding collation_def by blast
  have trans: "lc x y \<le> 0 \<Longrightarrow> lc y z \<le> 0 \<Longrightarrow> lc x z \<le> 0" for x y z
    using assms unfolding collation_def by blast
  have "compareSymbols lc a b \<le> 0 \<or> compareSymbols lc b a \<le> 0" for a b
    unfolding compareSymbols_le using tot[of "s_name a" "s_name b"] by linarith
  moreover have "compareSymbols lc a c \<le> 0"
    if "compareSymbols lc a b \<le> 0" "compareSymbols lc b c \<le> 0" for a b c
    using that trans[of "s_name a" "s_name b" "s_name c"] unfolding compareSymbols_le
    by linarith
  ultimately show ?thesis unfolding preorderOn_def by blast
qed

lemma extractSymbol_kind: "extractSymbol lc decl variant = Some s \<Longrightarrow> s_kind s = mapKind (declKindName decl)"
  by (auto simp: extractSymbol_def Let_def extractFunction_def extractClass_def extractInterface_def
      extractTypeAlias_def extractConst_def extractEnum_def split: if_splits)

lemma extractModule_Inr_iff:
  "extractModule lc project filePath variant = Inr r \<longleftrightarrow>
     (\<exists>sf m. project filePath = Some sf \<and> deriveModuleName filePath = Inr m \<and>
        r = \<lparr> r_module = m, r_filePath = filePath,
              r_exports = js_sort (compareSymbols lc) (pushSymbols lc variant (exportedDeclarations sf)),
              r_imports = extractImports sf,
              r_metadata = \<lparr> hasDefaultExport = defaultExportSymbol sf,
                  exportCount = length (js_sort (compareSymbols lc) (pushSymbols lc variant (exportedDeclarations sf))),
                  loc = endLineNumber sf \<rparr> \<rparr>)"
  by (auto simp: extractModule_def Let_def split: option.splits sum.splits)

lemma pushSymbols_eq:
  "pushSymbols lc variant entries =
     List.map_filter (\<lambda>decl. extractSymbol lc decl variant) (concat (map snd entries))"
proof -
  have inner: "concat (map (\<lambda>decl. case extractSymbol lc decl variant of None \<Rightarrow> [] | Some s \<Rightarrow> [s]) ds)
      = List.map_filter (\<lambda>decl. extractSymbol lc decl variant) ds" for ds
    by (induction ds) (auto simp: List.map_filter_simps split: option.splits)
  have mf_app: "List.map_filter f (xs @ ys) = List.map_filter f xs @ List.map_filter f ys" for f :: "decl_node \<Rightarrow> symbol option" and xs ys
    by (simp add: List.map_filter_def)
  show ?thesis
    unfolding pushSymbols_def
    by (induction entries) (auto simp: inner mf_app List.map_filter_simps)
qed

lemma pushSymbols_kind:
  "s \<in> set (pushSymbols lc variant entries) \<Longrightarrow>
     s_kind s \<in> {''type'', ''interface'', ''const'', ''function'', ''class'', ''enum'', ''unknown''}"
proof -
  assume "s \<in> set (pushSymbols lc variant entries)"
  then obtain decl where "extractSymbol lc decl variant = Some s"
    unfolding pushSymbols_eq by (auto simp: List.map_filter_def)
  then have "s_kind s = mapKind (declKindName decl)" by (rule extractSymbol_kind)
  then show ?thesis using mapKind_cases[of "declKindName decl"] by simp
qed

lemma kindPriority_inj:
  assumes "a \<in> {''type'', ''interface'', ''const'', ''function'', ''class'', ''enum'', ''unknown''}"
    and "b \<in> {''type'', ''interface'', ''const'', ''function'', ''class'', ''enum'', ''unknown''}"
    and "kindPriority a = kindPriority b"
  shows "a = b"
proof -
  let ?f = "\<lambda>p::int. if p = 0 then ''type'' else if p = 1 then ''interface''
     else if p = 2 then ''const'' else if p = 3 then ''function''
     else if p = 4 then ''class'' else if p = 5 then ''enum'' else ''unknown''"
  have inv: "k = ?f (kindPriority k)"
    if "k \<in> {''type'', ''interface'', ''const'', ''function'', ''class'', ''enum'', ''unknown''}" for k
    using that kindPriority_values by (elim insertE emptyE) simp_all
  have "a = ?f (kindPriority a)" using inv[OF assms(1)] .
  also have "\<dots> = ?f (kindPriority b)" using assms(3) by simp
  also have "\<dots> = b" using inv[OF assms(2)] by simp
  finally show ?thesis .
qed

lemma example_deriveModuleName:
  "deriveModuleName ''/home/user/project/src/sample.ts'' = Inr ''sample''"
  by (simp add: deriveModuleName_def lastIndexOf_def replaceExtension_def endsWith_def Let_def)

lemma example_exports_names:
  "map s_name (js_sort (compareSymbols lc) (pushSymbols lc variant (exportedDeclarations exampleFile)))
    = [''User'', ''UserConfig'', ''API_URL'', ''greet'', ''DatabaseClient'', ''Status'']"
  by (simp add: exampleFile_def pushSymbols_def exampleDecl_def extractSymbol_def Let_def
      checkPrivacy_def getName_def startsWith_def mapKind_def extractFunction_def extractClass_def
      extractInterface_def extractTypeAlias_def extractConst_def extractEnum_def js_sort_def
      compareSymbols_def kindPriority_def kindOrder_def)

text \<open>
  Claim C1.  The exports of an extraction result are sorted by the kind priority
  type 0, interface 1, const 2, function 3, class 4, enum 5, unknown 99, and two
  records of equal kind are in ascending order of their names under the collation.
  The file that exports function greet, interface UserConfig, const API_URL, type User,
  class DatabaseClient and enum Status, in that order, is emitted as User, UserConfig,
  API_URL, greet, DatabaseClient, Status.
\<close>

theorem exports_sorted_by_kind_then_name:
  assumes "collation lc" and "extractModule lc project filePath variant = Inr r"
  shows "sorted_wrt (symbolBefore lc) (r_exports r)
     \<and> kindPriority ''type'' = 0 \<and> kindPriority ''interface'' = 1 \<and> kindPriority ''const'' = 2
     \<and> kindPriority ''function'' = 3 \<and> kindPriority ''class'' = 4 \<and> kindPriority ''enum'' = 5
     \<and> kindPriority ''unknown'' = 99
     \<and> (project filePath = Some exampleFile \<longrightarrow>
          map s_name (r_exports r)
            = [''User'', ''UserConfig'', ''API_URL'', ''greet'', ''DatabaseClient'', ''Status''])"
proof -
  obtain sf m where sf: "project filePath = Some sf"
    and ex: "r_exports r = js_sort (compareSymbols lc) (pushSymbols lc variant (exportedDeclarations sf))"
    using assms(2) unfolding extractModule_Inr_iff by auto
  let ?xs = "pushSymbols lc variant (exportedDeclarations sf)"
  have srt: "sorted_wrt (\<lambda>a b. compareSymbols lc a b \<le> 0) (js_sort (compareSymbols lc) ?xs)"
    using sorted_js_sort[OF preorder_compareSymbols[OF assms(1)]] by simp
  have kinds: "\<And>s. s \<in> set (js_sort (compareSymbols lc) ?xs) \<Longrightarrow>
     s_kind s \<in> {''type'', ''interface'', ''const'', ''function'', ''class'', ''enum'', ''unknown''}"
    using pushSymbols_kind by (simp add: set_js_sort)
  have imp: "symbolBefore lc a b"
    if "a \<in> set (js_sort (compareSymbols lc) ?xs)" "b \<in> set (js_sort (compareSymbols lc) ?xs)"
      "compareSymbols lc a b \<le> 0" for a b
  proof (cases "kindPriority (s_kind a) = kindPriority (s_kind b)")
    case True
    then have "s_kind a = s_kind b" using kindPriority_inj kinds that(1,2) by blast
    then show ?thesis using that(3) True by (simp add: symbolBefore_def compareSymbols_def Let_def)
  next
    case False
    then show ?thesis using that(3) by (simp add: symbolBefore_def compareSymbols_def Let_def)
  qed
  have "sorted_wrt (symbolBefore lc) (js_sort (compareSymbols lc) ?xs)"
    using sorted_wrt_mono_rel[OF _ srt] imp by blast
  moreover have "project filePath = Some exampleFile \<longrightarrow>
          map s_name (r_exports r)
            = [''User'', ''UserConfig'', ''API_URL'', ''greet'', ''DatabaseClient'', ''Status'']"
    using sf ex example_exports_names by auto
  ultimately show ?thesis using ex kindPriority_values by simp
qed

lemma collation_codeUnitCompare: "collation codeUnitCompare"
  unfolding collation_def codeUnitCompare_def by auto

theorem exports_sorted_by_kind_then_name_witness:
  "collation codeUnitCompare \<and>
   (\<exists>r. extractModule codeUnitCompare (\<lambda>p. Some exampleFile) ''/home/user/project/src/sample.ts'' ''public'' = Inr r
      \<and> sorted_wrt (symbolBefore codeUnitCompare) (r_exports r)
      \<and> map s_name (r_exports r)
            = [''User'', ''UserConfig'', ''API_URL'', ''greet'', ''DatabaseClient'', ''Status''])"
proof -
  obtain r where r: "extractModule codeUnitCompare (\<lambda>p. Some exampleFile) ''/home/user/project/src/sample.ts'' ''public'' = Inr r"
    unfolding extractModule_Inr_iff using example_deriveModuleName by simp
  show ?thesis
    using exports_sorted_by_kind_then_name[OF collation_codeUnitCompare r] r collation_codeUnitCompare
    by auto
qed

section \<open>Class members\<close>

lemma membersOf_extractClass:
  "membersOf (extractClass lc decl symbol variant) = classMembers lc decl variant"
  unfolding membersOf_def extractClass_def classMembers_def Let_def by simp

lemma member_kinds_distinct:
  "''constructor'' \<noteq> ''property''" "''constructor'' \<noteq> ''method''" "''property'' \<noteq> ''method''"
  "''property'' \<noteq> ''constructor''" "''method'' \<noteq> ''constructor''" "''method'' \<noteq> ''property''"
  by simp_all

lemma kind_constructorMember: "m_kind (constructorMember ctor) = ''constructor''"
  unfolding constructorMember_def by simp

lemma kind_propertyMember: "m_kind (propertyMember p v) = ''property''"
  unfolding propertyMember_def by simp

lemma kind_methodMember: "m_kind (methodMember p v) = ''method''"
  unfolding methodMember_def by simp

lemma pushProperties_simps:
  "pushProperties variant [] = []"
  "pushProperties variant (p # ps) =
     (if variant = ''public'' \<and> getVisibility p \<noteq> ''public'' then []
      else [propertyMember p (getVisibility p)]) @ pushProperties variant ps"
  unfolding pushProperties_def Let_def by simp_all

lemma pushMethods_simps:
  "pushMethods variant [] = []"
  "pushMethods variant (p # ps) =
     (if variant = ''public'' \<and> getVisibility p \<noteq> ''public'' then []
      else [methodMember p (getVisibility p)]) @ pushMethods variant ps"
  unfolding pushMethods_def Let_def by simp_all

lemma kind_pushProperties: "m \<in> set (pushProperties variant props) \<Longrightarrow> m_kind m = ''property''"
proof (induction props)
  case Nil
  then show ?case by (simp add: pushProperties_simps(1))
next
  case (Cons p ps)
  then show ?case
    by (auto simp: pushProperties_simps(2) kind_propertyMember split: if_splits)
qed

lemma kind_pushMethods: "m \<in> set (pushMethods variant ms) \<Longrightarrow> m_kind m = ''method''"
proof (induction ms)
  case Nil
  then show ?case by (simp add: pushMethods_simps(1))
next
  case (Cons p ps)
  then show ?case
    by (auto simp: pushMethods_simps(2) kind_methodMember split: if_splits)
qed

lemma compareMembers_constructor:
  "m_kind x = ''constructor'' \<Longrightarrow> compareMembers lc x y = - 1"
  unfolding compareMembers_def by simp

lemma insertBy_constructor:
  "m_kind x = ''constructor'' \<Longrightarrow> insertBy (compareMembers lc) x ys = x # ys"
  by (cases ys) (simp_all add: compareMembers_constructor)

lemma js_sort_Cons: "js_sort cmp (x # xs) = insertBy cmp x (js_sort cmp xs)"
  by (simp add: js_sort_def)

lemma classMembers_constructor:
  assumes "declConstructors decl = ctor # others"
  shows "classMembers lc decl variant =
     constructorMember ctor # js_sort (compareMembers lc)
        (pushProperties variant (declProperties decl) @ pushMethods variant (declMethods decl))"
  unfolding classMembers_def using assms
  by (simp add: js_sort_Cons insertBy_constructor kind_constructorMember)

lemma classMembers_no_constructor:
  assumes "declConstructors decl = []"
  shows "classMembers lc decl variant =
     js_sort (compareMembers lc)
        (pushProperties variant (declProperties decl) @ pushMethods variant (declMethods decl))"
  using assms by (simp add: classMembers_def)

lemma compareMembers_plain:
  assumes "m_kind a \<noteq> ''constructor''" "m_kind b \<noteq> ''constructor''"
  shows "compareMembers lc a b =
     (if m_kind a \<noteq> m_kind b then (if m_kind a = ''property'' then - 1 else 1)
      else lc (m_name a) (m_name b))"
  unfolding compareMembers_def using assms by simp

lemma plainKind_not_constructor: "plainKind m \<Longrightarrow> m_kind m \<noteq> ''constructor''"
  unfolding plainKind_def using member_kinds_distinct by metis

lemma compareMembers_le:
  assumes "plainKind a" "plainKind b"
  shows "compareMembers lc a b \<le> 0 \<longleftrightarrow>
     (m_kind a = ''property'' \<and> m_kind b = ''method'')
     \<or> (m_kind a = m_kind b \<and> lc (m_name a) (m_name b) \<le> 0)"
proof (cases "m_kind a = m_kind b")
  case True
  then have no: "\<not> (m_kind a = ''property'' \<and> m_kind b = ''method'')"
    using member_kinds_distinct(3) by metis
  have eq: "compareMembers lc a b = lc (m_name a) (m_name b)"
    using compareMembers_plain[OF plainKind_not_constructor[OF assms(1)] plainKind_not_constructor[OF assms(2)], of lc]
      True by simp
  show ?thesis unfolding eq using True no by blast
next
  case False
  then have eq: "compareMembers lc a b = (if m_kind a = ''property'' then - 1 else 1)"
    using compareMembers_plain[OF plainKind_not_constructor[OF assms(1)] plainKind_not_constructor[OF assms(2)], of lc]
    by simp
  show ?thesis
  proof (cases "m_kind a = ''property''")
    case True
    then have "m_kind b = ''method''" using False assms(2) unfolding plainKind_def by metis
    then show ?thesis using eq True False by simp
  next
    case F2: False
    then show ?thesis using eq False by simp
  qed
qed

lemma preorder_compareMembers:
  assumes "collation lc"
  shows "preorderOn {m. plainKind m} (compareMembers lc)"
proof -
  have tot: "lc x y \<le> 0 \<or> lc y x \<le> 0" for x y
    using assms unfolding collation_def by blast
  have trans: "lc x y \<le> 0 \<Longrightarrow> lc y z \<le> 0 \<Longrightarrow> lc x z \<le> 0" for x y z
    using assms unfolding collation_def by blast
  have "compareMembers lc a b \<le> 0 \<or> compareMembers lc b a \<le> 0"
    if "plainKind a" "plainKind b" for a b
    unfolding compareMembers_le[OF that] compareMembers_le[OF that(2,1)]
    using that tot[of "m_name a" "m_name b"] unfolding plainKind_def by metis
  moreover have "compareMembers lc a c \<le> 0"
    if "plainKind a" "plainKind b" "plainKind c"
      "compareMembers lc a b \<le> 0" "compareMembers lc b c \<le> 0" for a b c
  proof -
    have ab: "(m_kind a = ''property'' \<and> m_kind b = ''method'') \<or> (m_kind a = m_kind b \<and> lc (m_name a) (m_name b) \<le> 0)"
      using that(4) unfolding compareMembers_le[OF that(1,2)] .
    have bc: "(m_kind b = ''property'' \<and> m_kind c = ''method'') \<or> (m_kind b = m_kind c \<and> lc (m_name b) (m_name c) \<le> 0)"
      using that(5) unfolding compareMembers_le[OF that(2,3)] .
    have "(m_kind a = ''property'' \<and> m_kind c = ''method'') \<or> (m_kind a = m_kind c \<and> lc (m_name a) (m_name c) \<le> 0)"
      using ab bc trans[of "m_name a" "m_name b" "m_name c"] member_kinds_distinct(3) by metis
    then show ?thesis unfolding compareMembers_le[OF that(1,3)] .
  qed
  ultimately show ?thesis unfolding preorderOn_def by blast
qed

lemma plainKind_rest:
  "m \<in> set (pushProperties variant props @ pushMethods variant ms) \<Longrightarrow> plainKind m"
  unfolding plainKind_def using kind_pushProperties kind_pushMethods by (metis Un_iff set_append)

lemma sorted_rest:
  assumes "collation lc"
  shows "sorted_wrt (memberBefore lc) (js_sort (compareMembers lc)
        (pushProperties variant props @ pushMethods variant ms))"
proof -
  let ?xs = "pushProperties variant props @ pushMethods variant ms"
  have sub: "set ?xs \<subseteq> {m. plainKind m}"
    using plainKind_rest by blast
  have s: "sorted_wrt (\<lambda>a b. compareMembers lc a b \<le> 0) (js_sort (compareMembers lc) ?xs)"
    using sorted_js_sort[OF preorder_compareMembers[OF assms] sub] .
  show ?thesis
  proof (rule sorted_wrt_mono_rel[OF _ s])
    fix a b assume "a \<in> set (js_sort (compareMembers lc) ?xs)" "b \<in> set (js_sort (compareMembers lc) ?xs)"
      and le: "compareMembers lc a b \<le> 0"
    then have "plainKind a" "plainKind b"
      using plainKind_rest unfolding set_js_sort by blast+
    then show "memberBefore lc a b" using le compareMembers_le[of a b lc] unfolding memberBefore_def by blast
  qed
qed

lemma example_class_members:
  assumes "0 < lc ''query'' ''connect''"
  shows "map m_name (classMembers lc exampleClass variant) = [''connectionString'', ''connect'', ''query'']"
  using assms
  by (simp add: classMembers_def exampleClass_def exampleDecl_def exampleMember_def
      pushProperties_def pushMethods_def getVisibility_def propertyMember_def methodMember_def
      js_sort_def compareMembers_def Let_def)

text \<open>
  Claim C5.  In the members of an extracted class a constructor record can only be the
  first one, every property record precedes every method record, and within the
  properties and within the methods the records are in ascending order of their names
  under the collation.  A class with the methods query and connect and the property
  connectionString yields connectionString, connect, query.
\<close>

theorem members_ordered:
  assumes "collation lc"
  shows "sorted_wrt (memberBefore lc) (membersOf (extractClass lc decl symbol variant))
     \<and> (\<forall>m\<in>set (tl (membersOf (extractClass lc decl symbol variant))). m_kind m \<noteq> ''constructor'')
     \<and> (\<forall>m\<in>set (membersOf (extractClass lc decl symbol variant)).
           m_kind m = ''constructor'' \<or> m_kind m = ''property'' \<or> m_kind m = ''method'')
     \<and> (declConstructors decl \<noteq> [] \<longrightarrow>
           m_kind (hd (membersOf (extractClass lc decl symbol variant))) = ''constructor'')
     \<and> (0 < lc ''query'' ''connect'' \<longrightarrow>
           map m_name (membersOf (extractClass lc exampleClass symbol variant))
             = [''connectionString'', ''connect'', ''query''])"
proof -
  let ?rest = "js_sort (compareMembers lc)
        (pushProperties variant (declProperties decl) @ pushMethods variant (declMethods decl))"
  have rest_plain: "plainKind m" if "m \<in> set ?rest" for m
    using that plainKind_rest unfolding set_js_sort by blast
  have rest_kind: "m_kind m = ''constructor'' \<or> m_kind m = ''property'' \<or> m_kind m = ''method''"
    if "m \<in> set ?rest" for m
    using rest_plain[OF that] unfolding plainKind_def by blast
  have rest_no_ctor: "m_kind m \<noteq> ''constructor''" if "m \<in> set ?rest" for m
    using rest_plain[OF that] by (rule plainKind_not_constructor)
  have rest_sorted: "sorted_wrt (memberBefore lc) ?rest" using sorted_rest[OF assms] .
  have main: "sorted_wrt (memberBefore lc) (classMembers lc decl variant)
     \<and> (\<forall>m\<in>set (tl (classMembers lc decl variant)). m_kind m \<noteq> ''constructor'')
     \<and> (\<forall>m\<in>set (classMembers lc decl variant).
           m_kind m = ''constructor'' \<or> m_kind m = ''property'' \<or> m_kind m = ''method'')
     \<and> (declConstructors decl \<noteq> [] \<longrightarrow> m_kind (hd (classMembers lc decl variant)) = ''constructor'')"
  proof (cases "declConstructors decl")
    case Nil
    have eq: "classMembers lc decl variant = ?rest" using classMembers_no_constructor[OF Nil] .
    have "\<forall>m\<in>set (tl ?rest). m_kind m \<noteq> ''constructor''"
      using rest_no_ctor list.set_sel(2)[of ?rest] by (cases ?rest) auto
    then show ?thesis unfolding eq using Nil rest_sorted rest_kind by blast
  next
    case (Cons ctor others)
    have eq: "classMembers lc decl variant = constructorMember ctor # ?rest"
      using classMembers_constructor[OF Cons] .
    have k: "m_kind (constructorMember ctor) = ''constructor''" by (rule kind_constructorMember)
    have "sorted_wrt (memberBefore lc) (constructorMember ctor # ?rest)"
      using rest_sorted k by (simp add: memberBefore_def)
    then show ?thesis unfolding eq using k rest_kind rest_no_ctor by simp
  qed
  show ?thesis
    unfolding membersOf_extractClass using main example_class_members by blast
qed

theorem members_ordered_witness:
  "collation codeUnitCompare \<and> declConstructors storeClass \<noteq> []
   \<and> 0 < codeUnitCompare ''query'' ''connect''
   \<and> sorted_wrt (memberBefore codeUnitCompare)
         (membersOf (extractClass codeUnitCompare storeClass (baseSymbol storeClass) ''internal''))
   \<and> m_kind (hd (membersOf (extractClass codeUnitCompare storeClass (baseSymbol storeClass) ''internal'')))
        = ''constructor''
   \<and> map m_name (membersOf (extractClass codeUnitCompare exampleClass (baseSymbol storeClass) ''internal''))
        = [''connectionString'', ''connect'', ''query'']"
proof -
  have c: "collation codeUnitCompare" by (rule collation_codeUnitCompare)
  have q: "0 < codeUnitCompare ''query'' ''connect''" by (simp add: codeUnitCompare_def)
  have d: "declConstructors storeClass \<noteq> []" by (simp add: storeClass_def)
  note m = members_ordered[OF c, of storeClass "baseSymbol storeClass" "''internal''"]
  have s: "sorted_wrt (memberBefore codeUnitCompare)
         (membersOf (extractClass codeUnitCompare storeClass (baseSymbol storeClass) ''internal''))"
    using m by (rule conjunct1)
  have h: "m_kind (hd (membersOf (extractClass codeUnitCompare storeClass (baseSymbol storeClass) ''internal'')))
        = ''constructor''"
    using m[THEN conjunct2, THEN conjunct2, THEN conjunct2, THEN conjunct1] d by (rule mp)
  have e: "map m_name (membersOf (extractClass codeUnitCompare exampleClass (baseSymbol storeClass) ''internal''))
        = [''connectionString'', ''connect'', ''query'']"
    using m[THEN conjunct2, THEN conjunct2, THEN conjunct2, THEN conjunct2] q by (rule mp)
  show ?thesis using c d q s h e by (intro conjI)
qed

lemma extractSymbol_None_iff:
  "extractSymbol lc decl variant = None \<longleftrightarrow> variant = ''public'' \<and> checkPrivacy decl"
  unfolding extractSymbol_def Let_def by simp

lemma extractSymbol_class:
  assumes "declKindName decl = ''ClassDeclaration''" "\<not> (variant = ''public'' \<and> checkPrivacy decl)"
  shows "extractSymbol lc decl variant = Some (extractClass lc decl (baseSymbol decl) variant)"
  using assms unfolding extractSymbol_def Let_def baseSymbol_def
  by (simp add: mapKind_def)

text \<open>
  Claim C10.  When a class declares a constructor, the first declared one is emitted
  as the first member, with visibility public and isStatic false, under every variant
  and whatever modifiers the constructor carries; the visibility filter applies to the
  properties and the methods only.
\<close>

theorem constructor_always_emitted:
  assumes "declConstructors decl = ctor # others"
  shows "membersOf (extractClass lc decl symbol variant)
           = constructorMember ctor # js_sort (compareMembers lc)
               (pushProperties variant (declProperties decl) @ pushMethods variant (declMethods decl))
     \<and> m_kind (constructorMember ctor) = ''constructor''
     \<and> m_visibility (constructorMember ctor) = ''public''
     \<and> m_isStatic (constructorMember ctor) = False
     \<and> (declKindName decl = ''ClassDeclaration'' \<longrightarrow> \<not> (variant = ''public'' \<and> checkPrivacy decl) \<longrightarrow>
          (\<exists>s. extractSymbol lc decl variant = Some s \<and> hd (membersOf s) = constructorMember ctor
               \<and> constructorMember ctor \<in> set (membersOf s)))"
proof -
  have m: "membersOf (extractClass lc decl symbol variant)
           = constructorMember ctor # js_sort (compareMembers lc)
               (pushProperties variant (declProperties decl) @ pushMethods variant (declMethods decl))"
    for symbol
    unfolding membersOf_extractClass by (rule classMembers_constructor[OF assms])
  have f: "m_kind (constructorMember ctor) = ''constructor''
     \<and> m_visibility (constructorMember ctor) = ''public''
     \<and> m_isStatic (constructorMember ctor) = False"
    unfolding constructorMember_def by simp
  have e: "\<exists>s. extractSymbol lc decl variant = Some s \<and> hd (membersOf s) = constructorMember ctor
               \<and> constructorMember ctor \<in> set (membersOf s)"
    if "declKindName decl = ''ClassDeclaration''" "\<not> (variant = ''public'' \<and> checkPrivacy decl)"
    using extractSymbol_class[OF that] m[of "baseSymbol decl"] by simp
  show ?thesis using m f e by blast
qed

theorem constructor_always_emitted_witness:
  "declConstructors storeClass = [exampleMember ''constructor'' [PrivateKeyword]]
   \<and> getVisibility (exampleMember ''constructor'' [PrivateKeyword]) = ''private''
   \<and> declKindName storeClass = ''ClassDeclaration''
   \<and> \<not> (''public'' = ''public'' \<and> checkPrivacy storeClass)
   \<and> (\<exists>s. extractSymbol codeUnitCompare storeClass ''public'' = Some s
         \<and> hd (membersOf s) = constructorMember (exampleMember ''constructor'' [PrivateKeyword])
         \<and> map m_name (membersOf s) = [''constructor'', ''_cache'', ''load''])
   \<and> m_visibility (constructorMember (exampleMember ''constructor'' [PrivateKeyword])) = ''public''"
proof -
  have d: "declConstructors storeClass = [exampleMember ''constructor'' [PrivateKeyword]]"
    by (simp add: storeClass_def)
  have v: "getVisibility (exampleMember ''constructor'' [PrivateKeyword]) = ''private''"
    by (simp add: getVisibility_def exampleMember_def)
  have k: "declKindName storeClass = ''ClassDeclaration''"
    by (simp add: storeClass_def exampleDecl_def)
  have p: "\<not> (''public'' = ''public'' \<and> checkPrivacy storeClass)"
    by (simp add: storeClass_def exampleDecl_def checkPrivacy_def getName_def startsWith_def)
  have rest: "map m_name (js_sort (compareMembers codeUnitCompare)
               (pushProperties ''public'' (declProperties storeClass) @
                pushMethods ''public'' (declMethods storeClass))) = [''_cache'', ''load'']"
    by (simp add: storeClass_def exampleDecl_def exampleMember_def pushProperties_def pushMethods_def
        getVisibility_def propertyMember_def methodMember_def js_sort_def compareMembers_def Let_def)
  have n: "m_name (constructorMember c) = ''constructor''" for c
    by (simp add: constructorMember_def)
  note t = constructor_always_emitted[OF d, of codeUnitCompare "baseSymbol storeClass" "''public''"]
  have vis: "m_visibility (constructorMember (exampleMember ''constructor'' [PrivateKeyword])) = ''public''"
    using t[THEN conjunct2, THEN conjunct2, THEN conjunct1] .
  have ex: "\<exists>s. extractSymbol codeUnitCompare storeClass ''public'' = Some s
       \<and> hd (membersOf s) = constructorMember (exampleMember ''constructor'' [PrivateKeyword])
       \<and> constructorMember (exampleMember ''constructor'' [PrivateKeyword]) \<in> set (membersOf s)"
    using t[THEN conjunct2, THEN conjunct2, THEN conjunct2, THEN conjunct2, THEN mp, THEN mp, OF k p] .
  then obtain s where s1: "extractSymbol codeUnitCompare storeClass ''public'' = Some s"
    and s2: "hd (membersOf s) = constructorMember (exampleMember ''constructor'' [PrivateKeyword])"
    by (elim exE conjE)
  have "s = extractClass codeUnitCompare storeClass (baseSymbol storeClass) ''public''"
    using extractSymbol_class[OF k p, of codeUnitCompare] s1 by simp
  then have "membersOf s = constructorMember (exampleMember ''constructor'' [PrivateKeyword]) #
      js_sort (compareMembers codeUnitCompare)
               (pushProperties ''public'' (declProperties storeClass) @
                pushMethods ''public'' (declMethods storeClass))"
    using t[THEN conjunct1] by simp
  then have names: "map m_name (membersOf s) = [''constructor'', ''_cache'', ''load'']"
    using rest n by simp
  show ?thesis using d v k p vis s1 s2 names by (intro conjI exI[of _ s])
qed

section \<open>Classification and the visibility gate\<close>

lemma extractors_keep_base:
  "s_name (extractFunction decl b) = s_name b" "s_isPrivate (extractFunction decl b) = s_isPrivate b"
  "s_kind (extractFunction decl b) = s_kind b"
  "s_name (extractClass lc decl b variant) = s_name b" "s_isPrivate (extractClass lc decl b variant) = s_isPrivate b"
  "s_kind (extractClass lc decl b variant) = s_kind b"
  "s_name (extractInterface decl b) = s_name b" "s_isPrivate (extractInterface decl b) = s_isPrivate b"
  "s_kind (extractInterface decl b) = s_kind b"
  "s_name (extractTypeAlias decl b) = s_name b" "s_isPrivate (extractTypeAlias decl b) = s_isPrivate b"
  "s_kind (extractTypeAlias decl b) = s_kind b"
  "s_name (extractConst decl b) = s_name b" "s_isPrivate (extractConst decl b) = s_isPrivate b"
  "s_kind (extractConst decl b) = s_kind b"
  "s_name (extractEnum decl b) = s_name b" "s_isPrivate (extractEnum decl b) = s_isPrivate b"
  "s_kind (extractEnum decl b) = s_kind b"
  unfolding extractFunction_def extractClass_def extractInterface_def extractTypeAlias_def
    extractConst_def extractEnum_def Let_def by simp_all

lemma extractors_members:
  "membersOf (extractFunction decl b) = []"
  "membersOf (extractInterface decl b) = []"
  "membersOf (extractTypeAlias decl b) = []"
  "membersOf (extractConst decl b) = []"
  "membersOf (extractEnum decl b) = []"
  "membersOf (baseSymbol decl) = []"
  unfolding extractFunction_def extractInterface_def extractTypeAlias_def
    extractConst_def extractEnum_def baseSymbol_def membersOf_def by simp_all

lemma extractSymbol_dispatch:
  "extractSymbol lc decl variant =
     (if variant = ''public'' \<and> checkPrivacy decl then None else Some (dispatch lc decl variant))"
  unfolding extractSymbol_def dispatch_def baseSymbol_def Let_def by simp

lemma baseSymbol_sel:
  "s_name (baseSymbol decl) = getName decl" "s_isPrivate (baseSymbol decl) = checkPrivacy decl"
  "s_kind (baseSymbol decl) = mapKind (declKindName decl)"
  unfolding baseSymbol_def by simp_all

lemma dispatch_sel:
  "s_name (dispatch lc decl variant) = getName decl"
  "s_isPrivate (dispatch lc decl variant) = checkPrivacy decl"
  "s_kind (dispatch lc decl variant) = mapKind (declKindName decl)"
  unfolding dispatch_def Let_def by (simp_all add: extractors_keep_base baseSymbol_sel)

lemma dispatch_members:
  "membersOf (dispatch lc decl variant) =
     (if mapKind (declKindName decl) = ''class'' then classMembers lc decl variant else [])"
  unfolding dispatch_def Let_def
  by (simp add: extractors_members membersOf_extractClass baseSymbol_sel)

lemma checkPrivacy_iff:
  "checkPrivacy decl \<longleftrightarrow>
     (\<exists>ms. declModifiers decl = Some ms \<and> (PrivateKeyword \<in> set ms \<or> ProtectedKeyword \<in> set ms))
     \<or> (\<exists>rest. getName decl = CHR ''_'' # rest)"
proof -
  have sw: "startsWith n ''_'' \<longleftrightarrow> (\<exists>rest. n = CHR ''_'' # rest)" for n
    unfolding startsWith_def by (cases n) auto
  show ?thesis
    unfolding checkPrivacy_def sw by (cases "declModifiers decl") auto
qed

lemma map_filter_if:
  "List.map_filter (\<lambda>x. if P x then None else Some (f x)) xs = map f (filter (\<lambda>x. \<not> P x) xs)"
  by (induction xs) (simp_all add: List.map_filter_simps)

lemma pushSymbols_filter:
  "pushSymbols lc variant entries =
     map (\<lambda>decl. dispatch lc decl variant)
         (filter (\<lambda>decl. \<not> (variant = ''public'' \<and> checkPrivacy decl)) (concat (map snd entries)))"
  unfolding pushSymbols_eq extractSymbol_dispatch by (rule map_filter_if)

text \<open>
  Claim C3.  The classification of a declaration returns null exactly when the variant
  is public and the declaration is private, where a declaration is private exactly when
  it carries a private or protected modifier or its resolved name starts with an
  underscore; under the internal variant no declaration is excluded; an excluded
  declaration contributes no record to the exports, which are the records of the
  declarations that are not excluded.
\<close>

theorem classification_null_iff:
  "(extractSymbol lc decl variant = None \<longleftrightarrow> variant = ''public'' \<and> checkPrivacy decl)
   \<and> (checkPrivacy decl \<longleftrightarrow>
        (\<exists>ms. declModifiers decl = Some ms \<and> (PrivateKeyword \<in> set ms \<or> ProtectedKeyword \<in> set ms))
        \<or> (\<exists>rest. getName decl = CHR ''_'' # rest))
   \<and> (variant = ''internal'' \<longrightarrow> extractSymbol lc decl variant \<noteq> None)
   \<and> (extractModule lc project filePath variant = Inr r \<longrightarrow> project filePath = Some sf \<longrightarrow>
        mset (r_exports r) =
          mset (List.map_filter (\<lambda>d. extractSymbol lc d variant) (allDeclarations sf))
        \<and> length (r_exports r) =
            length (filter (\<lambda>d. \<not> (variant = ''public'' \<and> checkPrivacy d)) (allDeclarations sf))
        \<and> exportCount (r_metadata r) = length (r_exports r))"
proof -
  have a: "extractSymbol lc decl variant = None \<longleftrightarrow> variant = ''public'' \<and> checkPrivacy decl"
    by (rule extractSymbol_None_iff)
  have b: "variant = ''internal'' \<longrightarrow> extractSymbol lc decl variant \<noteq> None"
    unfolding a by simp
  have c: "mset (r_exports r) =
          mset (List.map_filter (\<lambda>d. extractSymbol lc d variant) (allDeclarations sf))
        \<and> length (r_exports r) =
            length (filter (\<lambda>d. \<not> (variant = ''public'' \<and> checkPrivacy d)) (allDeclarations sf))
        \<and> exportCount (r_metadata r) = length (r_exports r)"
    if r: "extractModule lc project filePath variant = Inr r" and sf: "project filePath = Some sf"
  proof -
    have ex: "r_exports r = js_sort (compareSymbols lc) (pushSymbols lc variant (exportedDeclarations sf))"
      and cnt: "exportCount (r_metadata r) = length (r_exports r)"
      using r sf unfolding extractModule_Inr_iff by auto
    have "mset (r_exports r) = mset (List.map_filter (\<lambda>d. extractSymbol lc d variant) (allDeclarations sf))"
      unfolding ex mset_js_sort pushSymbols_eq allDeclarations_def by simp
    moreover have "length (r_exports r) =
            length (filter (\<lambda>d. \<not> (variant = ''public'' \<and> checkPrivacy d)) (allDeclarations sf))"
      unfolding ex length_js_sort pushSymbols_filter allDeclarations_def by simp
    ultimately show ?thesis using cnt by simp
  qed
  show ?thesis using a b c checkPrivacy_iff[of decl] by blast
qed

lemma mixed_deriveModuleName: "deriveModuleName ''/home/user/project/src/mixed.ts'' = Inr ''mixed''"
  by (simp add: deriveModuleName_def lastIndexOf_def replaceExtension_def endsWith_def Let_def)

theorem classification_null_iff_witness:
  "extractSymbol codeUnitCompare (exampleDecl ''FunctionDeclaration'' ''_helper'') ''public'' = None
   \<and> extractSymbol codeUnitCompare (exampleDecl ''FunctionDeclaration'' ''_helper'') ''internal'' \<noteq> None
   \<and> (\<exists>r. extractModule codeUnitCompare (\<lambda>p. Some mixedFile) ''/home/user/project/src/mixed.ts'' ''public'' = Inr r
        \<and> length (r_exports r) = 2 \<and> exportCount (r_metadata r) = 2)"
proof -
  let ?h = "exampleDecl ''FunctionDeclaration'' ''_helper''"
  have p: "checkPrivacy ?h"
    by (simp add: exampleDecl_def checkPrivacy_def getName_def startsWith_def)
  have n: "extractSymbol codeUnitCompare ?h ''public'' = None"
    using classification_null_iff[of codeUnitCompare ?h "''public''", THEN conjunct1] p by simp
  have i: "extractSymbol codeUnitCompare ?h ''internal'' \<noteq> None"
    using classification_null_iff[of codeUnitCompare ?h "''internal''",
        THEN conjunct2, THEN conjunct2, THEN conjunct1] by simp
  obtain r where r: "extractModule codeUnitCompare (\<lambda>p. Some mixedFile) ''/home/user/project/src/mixed.ts'' ''public'' = Inr r"
    unfolding extractModule_Inr_iff using mixed_deriveModuleName by simp
  have f: "length (filter (\<lambda>d. \<not> (''public'' = ''public'' \<and> checkPrivacy d)) (allDeclarations mixedFile)) = 2"
    by (simp add: allDeclarations_def mixedFile_def exampleDecl_def storeClass_def checkPrivacy_def
        getName_def startsWith_def)
  have "length (r_exports r) = 2 \<and> exportCount (r_metadata r) = 2"
    using classification_null_iff[of codeUnitCompare ?h "''public''" "\<lambda>p. Some mixedFile"
        "''/home/user/project/src/mixed.ts''" r mixedFile,
        THEN conjunct2, THEN conjunct2, THEN conjunct2] r f by simp
  then show ?thesis using n i r by (intro conjI exI[of _ r]) simp_all
qed

section \<open>Visibility of class members\<close>

lemma getVisibility_public_iff: "getVisibility m = ''public'' \<longleftrightarrow> \<not> restricted m"
  unfolding getVisibility_def restricted_def by (cases "mnModifiers m") simp_all

lemma getVisibility_unrestricted: "\<not> restricted m \<Longrightarrow> getVisibility m = ''public''"
  using getVisibility_public_iff by blast

lemma pushProperties_public:
  "pushProperties ''public'' props =
     map (\<lambda>p. propertyMember p ''public'') (filter (\<lambda>p. \<not> restricted p) props)"
  by (induction props) (simp_all add: pushProperties_simps getVisibility_public_iff getVisibility_unrestricted)

lemma pushMethods_public:
  "pushMethods ''public'' ms =
     map (\<lambda>p. methodMember p ''public'') (filter (\<lambda>p. \<not> restricted p) ms)"
  by (induction ms) (simp_all add: pushMethods_simps getVisibility_public_iff getVisibility_unrestricted)

lemma pushProperties_other:
  "variant \<noteq> ''public'' \<Longrightarrow>
     pushProperties variant props = map (\<lambda>p. propertyMember p (getVisibility p)) props"
  by (induction props) (simp_all add: pushProperties_simps)

lemma pushMethods_other:
  "variant \<noteq> ''public'' \<Longrightarrow>
     pushMethods variant ms = map (\<lambda>p. methodMember p (getVisibility p)) ms"
  by (induction ms) (simp_all add: pushMethods_simps)

lemma mset_classMembers:
  "mset (classMembers lc decl variant) =
     mset (firstConstructor decl) + mset (pushProperties variant (declProperties decl))
       + mset (pushMethods variant (declMethods decl))"
  unfolding classMembers_def firstConstructor_def mset_js_sort by simp

lemma visibility_propertyMember: "m_visibility (propertyMember p v) = v"
  unfolding propertyMember_def by simp

lemma visibility_methodMember: "m_visibility (methodMember p v) = v"
  unfolding methodMember_def by simp

lemma visibility_constructorMember: "m_visibility (constructorMember c) = ''public''"
  unfolding constructorMember_def by simp

lemma public_members_visible:
  assumes "m \<in> set (classMembers lc decl ''public'')"
  shows "m_visibility m = ''public''"
proof -
  have "m \<in># mset (classMembers lc decl ''public'')" using assms by simp
  then have "m \<in> set (firstConstructor decl)
      \<or> m \<in> set (pushProperties ''public'' (declProperties decl))
      \<or> m \<in> set (pushMethods ''public'' (declMethods decl))"
    unfolding mset_classMembers by auto
  then show ?thesis
  proof (elim disjE)
    assume "m \<in> set (firstConstructor decl)"
    then show ?thesis
      unfolding firstConstructor_def
      by (cases "declConstructors decl") (simp_all add: visibility_constructorMember)
  next
    assume "m \<in> set (pushProperties ''public'' (declProperties decl))"
    then show ?thesis unfolding pushProperties_public
      by (auto simp: visibility_propertyMember)
  next
    assume "m \<in> set (pushMethods ''public'' (declMethods decl))"
    then show ?thesis unfolding pushMethods_public
      by (auto simp: visibility_methodMember)
  qed
qed

lemma exports_from_declarations:
  assumes "extractModule lc project filePath variant = Inr r" and "project filePath = Some sf"
  shows "r_exports r = js_sort (compareSymbols lc)
     (map (\<lambda>decl. dispatch lc decl variant)
         (filter (\<lambda>decl. \<not> (variant = ''public'' \<and> checkPrivacy decl)) (allDeclarations sf)))"
  using assms unfolding extractModule_Inr_iff pushSymbols_filter allDeclarations_def by auto

text \<open>
  Claim C2, as amended.  Under the public variant no record of the exports is private and
  every member of a class has visibility public: the members are the first constructor
  and the properties and methods that carry no private or protected modifier, whatever
  their names.  Under any other variant every exported declaration has a record and
  the members of a class are the first constructor and all properties and methods.
\<close>

theorem visibility_filter_by_modifier:
  assumes "extractModule lc project filePath variant = Inr r" and "project filePath = Some sf"
  shows "(variant = ''public'' \<longrightarrow>
            (\<forall>s\<in>set (r_exports r). \<not> s_isPrivate s
                \<and> (\<forall>m\<in>set (membersOf s). m_visibility m = ''public'')))
     \<and> (variant = ''public'' \<longrightarrow>
            mset (membersOf (extractClass lc decl symbol variant)) =
              mset (firstConstructor decl)
              + mset (map (\<lambda>p. propertyMember p ''public'')
                       (filter (\<lambda>p. \<not> restricted p) (declProperties decl)))
              + mset (map (\<lambda>p. methodMember p ''public'')
                       (filter (\<lambda>p. \<not> restricted p) (declMethods decl))))
     \<and> (variant \<noteq> ''public'' \<longrightarrow>
            mset (map s_name (r_exports r)) = mset (map getName (allDeclarations sf))
            \<and> mset (membersOf (extractClass lc decl symbol variant)) =
                mset (firstConstructor decl)
                + mset (map (\<lambda>p. propertyMember p (getVisibility p)) (declProperties decl))
                + mset (map (\<lambda>p. methodMember p (getVisibility p)) (declMethods decl)))"
proof -
  note ex = exports_from_declarations[OF assms]
  have a: "\<not> s_isPrivate s \<and> (\<forall>m\<in>set (membersOf s). m_visibility m = ''public'')"
    if v: "variant = ''public''" and s: "s \<in> set (r_exports r)" for s
  proof -
    obtain d where d: "s = dispatch lc d ''public''" "\<not> checkPrivacy d"
      using s unfolding ex set_js_sort v by auto
    have "\<not> s_isPrivate s" using d by (simp add: dispatch_sel)
    moreover have "\<forall>m\<in>set (membersOf s). m_visibility m = ''public''"
      unfolding d(1) dispatch_members
      by (cases "mapKind (declKindName d) = ''class''") (simp_all add: public_members_visible)
    ultimately show ?thesis by simp
  qed
  have b: "mset (membersOf (extractClass lc decl symbol variant)) =
              mset (firstConstructor decl)
              + mset (map (\<lambda>p. propertyMember p ''public'')
                       (filter (\<lambda>p. \<not> restricted p) (declProperties decl)))
              + mset (map (\<lambda>p. methodMember p ''public'')
                       (filter (\<lambda>p. \<not> restricted p) (declMethods decl)))"
    if v: "variant = ''public''"
    unfolding membersOf_extractClass mset_classMembers v pushProperties_public pushMethods_public ..
  have c1: "mset (map s_name (r_exports r)) = mset (map getName (allDeclarations sf))"
    if v: "variant \<noteq> ''public''"
  proof -
    have "mset (map s_name (r_exports r)) = image_mset s_name (mset (r_exports r))" by simp
    also have "\<dots> = image_mset s_name (mset (map (\<lambda>decl. dispatch lc decl variant) (allDeclarations sf)))"
      unfolding ex mset_js_sort using v by simp
    also have "\<dots> = mset (map getName (allDeclarations sf))"
      by (simp add: dispatch_sel image_mset.compositionality comp_def)
    finally show ?thesis .
  qed
  have c2: "mset (membersOf (extractClass lc decl symbol variant)) =
                mset (firstConstructor decl)
                + mset (map (\<lambda>p. propertyMember p (getVisibility p)) (declProperties decl))
                + mset (map (\<lambda>p. methodMember p (getVisibility p)) (declMethods decl))"
    if v: "variant \<noteq> ''public''"
    unfolding membersOf_extractClass mset_classMembers pushProperties_other[OF v] pushMethods_other[OF v] ..
  show ?thesis using a b c1 c2 by blast
qed

theorem visibility_filter_by_modifier_witness:
  "\<exists>r. extractModule codeUnitCompare (\<lambda>p. Some mixedFile) ''/home/user/project/src/mixed.ts'' ''public'' = Inr r
      \<and> (\<forall>s\<in>set (r_exports r). \<not> s_isPrivate s
                \<and> (\<forall>m\<in>set (membersOf s). m_visibility m = ''public''))"
proof -
  obtain r where r: "extractModule codeUnitCompare (\<lambda>p. Some mixedFile) ''/home/user/project/src/mixed.ts'' ''public'' = Inr r"
    unfolding extractModule_Inr_iff using mixed_deriveModuleName by simp
  have sf: "(\<lambda>p. Some mixedFile) ''/home/user/project/src/mixed.ts'' = Some mixedFile" by simp
  have "\<forall>s\<in>set (r_exports r). \<not> s_isPrivate s
                \<and> (\<forall>m\<in>set (membersOf s). m_visibility m = ''public'')"
    using visibility_filter_by_modifier[OF r sf, THEN conjunct1] by simp
  then show ?thesis using r by (intro exI[of _ r] conjI)
qed

lemma storeClass_public_names:
  "map m_name (classMembers codeUnitCompare storeClass ''public'') = [''constructor'', ''_cache'', ''load'']"
  by (simp add: classMembers_def storeClass_def exampleDecl_def exampleMember_def pushProperties_def
      pushMethods_def getVisibility_def propertyMember_def methodMember_def constructorMember_def
      js_sort_def compareMembers_def Let_def)

theorem underscore_member_kept_counterexample:
  "map_option memberNames (extractSymbol codeUnitCompare storeClass ''public'')
     = Some [''constructor'', ''_cache'', ''load'']
   \<and> startsWith ''_cache'' ''_''
   \<and> exampleMember ''_cache'' [] \<in> set (declProperties storeClass)"
proof -
  have p: "\<not> checkPrivacy storeClass"
    by (simp add: storeClass_def exampleDecl_def checkPrivacy_def getName_def startsWith_def)
  have k: "mapKind (declKindName storeClass) = ''class''"
    by (simp add: storeClass_def exampleDecl_def mapKind_def)
  have "extractSymbol codeUnitCompare storeClass ''public'' = Some (dispatch codeUnitCompare storeClass ''public'')"
    unfolding extractSymbol_dispatch using p by simp
  moreover have "map m_name (membersOf (dispatch codeUnitCompare storeClass ''public''))
     = [''constructor'', ''_cache'', ''load'']"
    unfolding dispatch_members using k storeClass_public_names by simp
  moreover have "startsWith ''_cache'' ''_''" by (simp add: startsWith_def)
  moreover have "exampleMember ''_cache'' [] \<in> set (declProperties storeClass)"
    by (simp add: storeClass_def)
  ultimately show ?thesis by (simp add: memberNames_def)
qed

section \<open>Documentation blocks\<close>

lemma startsWith_iff: "startsWith s t \<longleftrightarrow> (\<exists>post. s = t @ post)"
proof
  assume "startsWith s t"
  then have "s = t @ drop (length t) s"
    unfolding startsWith_def by (metis append_take_drop_id)
  then show "\<exists>post. s = t @ post" ..
next
  assume "\<exists>post. s = t @ post"
  then show "startsWith s t" unfolding startsWith_def by auto
qed

lemma str_includes_iff: "str_includes s t \<longleftrightarrow> (\<exists>pre post. s = pre @ t @ post)"
proof (induction s)
  case Nil
  then show ?case by auto
next
  case (Cons x xs)
  show ?case
  proof
    assume "str_includes (x # xs) t"
    then consider "startsWith (x # xs) t" | "str_includes xs t" by auto
    then show "\<exists>pre post. x # xs = pre @ t @ post"
    proof cases
      case 1
      then obtain post where "x # xs = [] @ t @ post" unfolding startsWith_iff by auto
      then show ?thesis by blast
    next
      case 2
      then obtain pre post where "xs = pre @ t @ post" using Cons.IH by blast
      then have "x # xs = (x # pre) @ t @ post" by simp
      then show ?thesis by blast
    qed
  next
    assume "\<exists>pre post. x # xs = pre @ t @ post"
    then obtain pre post where e: "x # xs = pre @ t @ post" by blast
    show "str_includes (x # xs) t"
    proof (cases pre)
      case Nil
      then have "startsWith (x # xs) t" using e unfolding startsWith_iff by auto
      then show ?thesis by simp
    next
      case (Cons p ps)
      then have "xs = ps @ t @ post" using e by simp
      then have "str_includes xs t" using Cons.IH by blast
      then show ?thesis by simp
    qed
  qed
qed

lemma trim_decomposition:
  "\<exists>l r. s = l @ trim s @ r \<and> (\<forall>c\<in>set l. isWhiteSpace c) \<and> (\<forall>c\<in>set r. isWhiteSpace c)"
proof -
  let ?l = "takeWhile isWhiteSpace s"
  let ?m = "dropWhile isWhiteSpace s"
  let ?r = "rev (takeWhile isWhiteSpace (rev ?m))"
  have 1: "s = ?l @ ?m" by simp
  have "rev ?m = takeWhile isWhiteSpace (rev ?m) @ dropWhile isWhiteSpace (rev ?m)" by simp
  then have "?m = rev (dropWhile isWhiteSpace (rev ?m)) @ ?r"
    by (metis rev_append rev_rev_ident)
  then have 2: "?m = trim s @ ?r" unfolding trim_def .
  have 3: "\<forall>c\<in>set ?l. isWhiteSpace c" by (meson set_takeWhileD)
  have 4: "\<forall>c\<in>set ?r. isWhiteSpace c" by (metis set_rev set_takeWhileD)
  have "s = ?l @ trim s @ ?r" using 1 2 by metis
  then show ?thesis using 3 4 by blast
qed

lemma trim_ends:
  "trim s \<noteq> [] \<Longrightarrow> \<not> isWhiteSpace (hd (trim s)) \<and> \<not> isWhiteSpace (last (trim s))"
proof -
  assume ne: "trim s \<noteq> []"
  let ?m = "dropWhile isWhiteSpace s"
  let ?d = "dropWhile isWhiteSpace (rev ?m)"
  have t: "trim s = rev ?d" unfolding trim_def ..
  have dne: "?d \<noteq> []" using ne t by simp
  have l: "\<not> isWhiteSpace (hd ?d)" using dne hd_dropWhile by blast
  have last: "last (trim s) = hd ?d" unfolding t using dne by (simp add: last_rev)
  have "?m \<noteq> []" using dne by (metis dropWhile.simps(1) rev.simps(1))
  then have hm: "\<not> isWhiteSpace (hd ?m)" using hd_dropWhile by blast
  have "?m = rev ?d @ rev (takeWhile isWhiteSpace (rev ?m))"
    by (metis rev_append rev_rev_ident takeWhile_dropWhile_id)
  then have "hd ?m = hd (rev ?d)" using dne by (metis hd_append2 rev_is_Nil_conv)
  then have "\<not> isWhiteSpace (hd (trim s))" using hm t by simp
  then show ?thesis using l last by simp
qed

text \<open>
  What \<^verbatim>\<open>extractJSDoc\<close> computes.  The documentation of a node is the absent marker when
  the node does not support documentation blocks or has none, and otherwise is built from
  the first block only: its description with the surrounding white space trimmed, and one
  tag record per tag with the tag's name, its type annotation when it has one, and as its
  text the empty string when the tag has no comment and otherwise whatever the parser
  returns as the comment, a string or an array of nodes.  A block with no description and
  no tags yields an empty record, which differs from the absent marker.
\<close>

lemma extractJSDoc_first_block:
  "(extractJSDoc docs = None \<longleftrightarrow> docs = None \<or> docs = Some [])
   \<and> (docs = Some (doc # others) \<longrightarrow>
        (\<exists>j. extractJSDoc docs = Some j
           \<and> j_description j = trim (docDescription doc)
           \<and> length (j_tags j) = length (docTags doc)
           \<and> (\<forall>i<length (docTags doc).
                 t_name (j_tags j ! i) = tagName (docTags doc ! i)
               \<and> t_text (j_tags j ! i) = (case tagComment (docTags doc ! i) of
                                            None \<Rightarrow> TextValue [] | Some v \<Rightarrow> v)
               \<and> t_type (j_tags j ! i) = (case tagTypeExpression (docTags doc ! i) of
                                            Some (Some ty) \<Rightarrow> Some ty | _ \<Rightarrow> None))))
   \<and> (\<exists>l r. docDescription doc = l @ trim (docDescription doc) @ r
          \<and> (\<forall>c\<in>set l. isWhiteSpace c) \<and> (\<forall>c\<in>set r. isWhiteSpace c))
   \<and> (trim (docDescription doc) \<noteq> [] \<longrightarrow>
          \<not> isWhiteSpace (hd (trim (docDescription doc)))
        \<and> \<not> isWhiteSpace (last (trim (docDescription doc))))
   \<and> extractJSDoc (Some [emptyDocBlock]) = Some \<lparr> j_description = [], j_tags = [] \<rparr>
   \<and> extractJSDoc (Some [emptyDocBlock]) \<noteq> extractJSDoc (Some [])"
proof -
  have a: "extractJSDoc docs = None \<longleftrightarrow> docs = None \<or> docs = Some []"
    unfolding extractJSDoc_def by (simp split: option.splits list.splits)
  have b: "\<exists>j. extractJSDoc docs = Some j
           \<and> j_description j = trim (docDescription doc)
           \<and> length (j_tags j) = length (docTags doc)
           \<and> (\<forall>i<length (docTags doc).
                 t_name (j_tags j ! i) = tagName (docTags doc ! i)
               \<and> t_text (j_tags j ! i) = (case tagComment (docTags doc ! i) of
                                            None \<Rightarrow> TextValue [] | Some v \<Rightarrow> v)
               \<and> t_type (j_tags j ! i) = (case tagTypeExpression (docTags doc ! i) of
                                            Some (Some ty) \<Rightarrow> Some ty | _ \<Rightarrow> None))"
    if "docs = Some (doc # others)"
    unfolding that extractJSDoc_def by (simp split: option.splits comment_value.splits)
  have c: "extractJSDoc (Some [emptyDocBlock]) = Some \<lparr> j_description = [], j_tags = [] \<rparr>"
    unfolding extractJSDoc_def emptyDocBlock_def trim_def by simp
  have d: "extractJSDoc (Some [emptyDocBlock]) \<noteq> extractJSDoc (Some [])"
    unfolding c by (simp add: extractJSDoc_def)
  show ?thesis using a b c d trim_decomposition[of "docDescription doc"] trim_ends[of "docDescription doc"]
    by blast
qed

lemma extractJSDoc_first_block_sample:
  "extractJSDoc (Some [sampleDocBlock, emptyDocBlock])
     = Some \<lparr> j_description = ''Greets a user by name'',
              j_tags = [\<lparr> t_name = ''param'', t_text = TextValue ''- The user name'',
                          t_type = Some ''{string}'' \<rparr>,
                        \<lparr> t_name = ''deprecated'', t_text = TextValue [], t_type = None \<rparr>] \<rparr>
   \<and> trim (docDescription sampleDocBlock) \<noteq> []
   \<and> \<not> isWhiteSpace (last (trim (docDescription sampleDocBlock)))
   \<and> (\<exists>j. extractJSDoc (Some [sampleDocBlock, emptyDocBlock]) = Some j
          \<and> j_description j = trim (docDescription sampleDocBlock)
          \<and> length (j_tags j) = 2)"
proof -
  have "\<exists>j. extractJSDoc (Some [sampleDocBlock, emptyDocBlock]) = Some j
           \<and> j_description j = trim (docDescription sampleDocBlock)
           \<and> length (j_tags j) = length (docTags sampleDocBlock)
           \<and> (\<forall>i<length (docTags sampleDocBlock).
                 t_name (j_tags j ! i) = tagName (docTags sampleDocBlock ! i)
               \<and> t_text (j_tags j ! i) = (case tagComment (docTags sampleDocBlock ! i) of
                                            None \<Rightarrow> TextValue [] | Some v \<Rightarrow> v)
               \<and> t_type (j_tags j ! i) = (case tagTypeExpression (docTags sampleDocBlock ! i) of
                                            Some (Some ty) \<Rightarrow> Some ty | _ \<Rightarrow> None))"
    using extractJSDoc_first_block[of "Some [sampleDocBlock, emptyDocBlock]" sampleDocBlock "[emptyDocBlock]",
        THEN conjunct2, THEN conjunct1] by simp
  then obtain j where j: "extractJSDoc (Some [sampleDocBlock, emptyDocBlock]) = Some j"
    "j_description j = trim (docDescription sampleDocBlock)"
    "length (j_tags j) = length (docTags sampleDocBlock)"
    by (elim exE conjE)
  have "length (docTags sampleDocBlock) = 2" by (simp add: sampleDocBlock_def)
  then have x: "extractJSDoc (Some [sampleDocBlock, emptyDocBlock]) = Some j
          \<and> j_description j = trim (docDescription sampleDocBlock)
          \<and> length (j_tags j) = 2"
    using j by simp
  have e: "extractJSDoc (Some [sampleDocBlock, emptyDocBlock])
     = Some \<lparr> j_description = ''Greets a user by name'',
              j_tags = [\<lparr> t_name = ''param'', t_text = TextValue ''- The user name'',
                          t_type = Some ''{string}'' \<rparr>,
                        \<lparr> t_name = ''deprecated'', t_text = TextValue [], t_type = None \<rparr>] \<rparr>"
    unfolding extractJSDoc_def sampleDocBlock_def trim_def by (simp add: isWhiteSpace_def)
  have n: "trim (docDescription sampleDocBlock) \<noteq> []"
    unfolding sampleDocBlock_def trim_def by (simp add: isWhiteSpace_def)
  have "\<not> isWhiteSpace (last (trim (docDescription sampleDocBlock)))"
    using extractJSDoc_first_block[of _ sampleDocBlock,
        THEN conjunct2, THEN conjunct2, THEN conjunct2, THEN conjunct1] n by simp
  then show ?thesis using e n x by (intro conjI exI[of _ j]) simp_all
qed

text \<open>
  Claim C8.  Each tag record is to carry the tag's comment text, the empty string when
  the tag has no comment.  For a tag whose comment holds an inline link, such as
  \<^verbatim>\<open>@deprecated Use {@link greet} instead\<close>, the parser returns the comment as an array of
  nodes and the code stores that array as the record's text: the record carries no
  comment text.
\<close>

theorem extractJSDoc_link_comment_stored_as_nodes:
  "map_option tagTexts (extractJSDoc (Some [linkedDocBlock]))
     = Some [NodeArray [JSDocText ''Use '', JSDocLink ''{@link greet}'', JSDocText '' instead'']]"
  unfolding extractJSDoc_def linkedDocBlock_def tagTexts_def by simp

lemma bare_name_no_match: "\<not> str_includes ''userId'' ''id''"
  by (simp add: startsWith_def)

text \<open>
  Claim C7.  The comment of a parameter is the text of the first tag named param whose
  text contains the parameter's name as a substring, and is absent when there is no
  documentation or no such tag.  Containment is of substrings: the parameter id matches
  a tag that documents userId when the tag's text contains the letters id.  A tag whose
  text is an array of nodes is never matched.
\<close>

theorem extractParamComment_first_match:
  "extractParamComment None paramName = None
   \<and> (extractParamComment (Some d) paramName = Some txt \<longleftrightarrow>
        (\<exists>i<length (j_tags d). paramTagFor paramName (j_tags d ! i) \<and> t_text (j_tags d ! i) = txt
            \<and> (\<forall>k<i. \<not> paramTagFor paramName (j_tags d ! k))))
   \<and> (extractParamComment (Some d) paramName = None \<longleftrightarrow>
        (\<forall>tag\<in>set (j_tags d). \<not> paramTagFor paramName tag))
   \<and> (paramTagFor paramName tag \<longleftrightarrow>
        t_name tag = ''param'' \<and> (\<exists>pre post. t_text tag = TextValue (pre @ paramName @ post)))
   \<and> extractParamComment (Some userIdDoc) ''id'' = Some (TextValue ''userId - the id of the user'')"
proof -
  let ?P = "\<lambda>tag. t_name tag = ''param'' \<and> valueIncludes (t_text tag) paramName"
  have P: "?P = paramTagFor paramName" unfolding paramTagFor_def ..
  have a: "extractParamComment None paramName = None" unfolding extractParamComment_def by simp
  have e: "extractParamComment (Some d) paramName = map_option t_text (List.find (paramTagFor paramName) (j_tags d))"
    unfolding extractParamComment_def P by (simp split: option.splits)
  have b: "extractParamComment (Some d) paramName = Some txt \<longleftrightarrow>
        (\<exists>i<length (j_tags d). paramTagFor paramName (j_tags d ! i) \<and> t_text (j_tags d ! i) = txt
            \<and> (\<forall>k<i. \<not> paramTagFor paramName (j_tags d ! k)))"
    unfolding e map_option_eq_Some find_Some_iff by auto
  have c: "extractParamComment (Some d) paramName = None \<longleftrightarrow>
        (\<forall>tag\<in>set (j_tags d). \<not> paramTagFor paramName tag)"
    unfolding e by (auto simp: find_None_iff)
  have f: "paramTagFor paramName tag \<longleftrightarrow>
        t_name tag = ''param'' \<and> (\<exists>pre post. t_text tag = TextValue (pre @ paramName @ post))"
    unfolding paramTagFor_def by (cases "t_text tag") (auto simp: str_includes_iff)
  have g: "extractParamComment (Some userIdDoc) ''id'' = Some (TextValue ''userId - the id of the user'')"
    unfolding extractParamComment_def userIdDoc_def by (simp add: startsWith_def)
  show ?thesis using a b c f g by (intro conjI)
qed

theorem extractParamComment_first_match_witness:
  "paramTagFor ''id'' (j_tags userIdDoc ! 1)
   \<and> \<not> paramTagFor ''id'' (j_tags userIdDoc ! 0)
   \<and> extractParamComment (Some userIdDoc) ''id'' = Some (t_text (j_tags userIdDoc ! 1))
   \<and> extractParamComment (Some userIdDoc) ''name'' = None"
proof -
  have 1: "paramTagFor ''id'' (j_tags userIdDoc ! 1)"
    unfolding paramTagFor_def userIdDoc_def by (simp add: startsWith_def)
  have 0: "\<not> paramTagFor ''id'' (j_tags userIdDoc ! 0)"
    unfolding paramTagFor_def userIdDoc_def by simp
  have l: "(1::nat) < length (j_tags userIdDoc)" unfolding userIdDoc_def by simp
  have "\<exists>i<length (j_tags userIdDoc). paramTagFor ''id'' (j_tags userIdDoc ! i)
          \<and> t_text (j_tags userIdDoc ! i) = t_text (j_tags userIdDoc ! 1)
          \<and> (\<forall>k<i. \<not> paramTagFor ''id'' (j_tags userIdDoc ! k))"
    using 1 0 l by (intro exI[of _ 1]) simp
  then have s: "extractParamComment (Some userIdDoc) ''id'' = Some (t_text (j_tags userIdDoc ! 1))"
    using extractParamComment_first_match[of "''id''" userIdDoc "t_text (j_tags userIdDoc ! 1)",
        THEN conjunct2, THEN conjunct1] by simp
  have "\<forall>tag\<in>set (j_tags userIdDoc). \<not> paramTagFor ''name'' tag"
    unfolding paramTagFor_def userIdDoc_def by (simp add: startsWith_def)
  then have n: "extractParamComment (Some userIdDoc) ''name'' = None"
    using extractParamComment_first_match[of "''name''" userIdDoc,
        THEN conjunct2, THEN conjunct2, THEN conjunct1] by simp
  show ?thesis using 1 0 s n by (intro conjI)
qed

section \<open>Type information\<close>

lemma str_includes_char: "str_includes s [c] \<longleftrightarrow> c \<in> set s"
  unfolding str_includes_iff by (auto simp: in_set_conv_decomp)

lemma matchTypeArguments_no_final:
  "s = [] \<or> last s \<noteq> CHR ''>'' \<Longrightarrow> matchTypeArguments s = None"
proof (induction s)
  case Nil
  then show ?case by simp
next
  case (Cons c cs)
  show ?case
  proof (cases "cs = []")
    case True
    then show ?thesis by simp
  next
    case False
    then have "last cs \<noteq> CHR ''>''" using Cons.prems by simp
    then show ?thesis using Cons.IH by simp
  qed
qed

lemma matchTypeArguments_first:
  assumes "CHR ''<'' \<notin> set pre" "cs \<noteq> []" "last cs = CHR ''>''" "butlast cs \<noteq> []"
    and "\<forall>x\<in>set (butlast cs). \<not> isLineTerminator x"
  shows "matchTypeArguments (pre @ CHR ''<'' # cs) = Some (butlast cs)"
  using assms(1)
proof (induction pre)
  case Nil
  then show ?case using assms(2-5) by (simp add: list_all_iff)
next
  case (Cons p ps)
  then show ?case by auto
qed

lemma betweenFirstAndFinal_first:
  assumes "CHR ''<'' \<notin> set pre" "cs \<noteq> []" "last cs = CHR ''>''"
  shows "betweenFirstAndFinal (pre @ CHR ''<'' # cs) = butlast cs"
proof -
  have d: "dropWhile (\<lambda>c. c \<noteq> CHR ''<'') (pre @ CHR ''<'' # cs) = CHR ''<'' # cs"
    using assms(1) by (induction pre) auto
  obtain b where b: "cs = b @ [CHR ''>'']"
    using assms(2,3) by (metis append_butlast_last_id)
  have bl: "butlast cs = b" unfolding b by simp
  have "rev cs = CHR ''>'' # rev b" unfolding b by simp
  then have "tl (dropWhile (\<lambda>c. c \<noteq> CHR ''>'') (rev cs)) = rev b" by simp
  then show ?thesis unfolding betweenFirstAndFinal_def d bl by simp
qed

lemma split_at_first:
  assumes "CHR ''<'' \<in> set s" "s \<noteq> []" "last s = CHR ''>''"
  shows "\<exists>pre cs. s = pre @ CHR ''<'' # cs \<and> CHR ''<'' \<notin> set pre \<and> cs \<noteq> [] \<and> last cs = CHR ''>''"
proof -
  obtain pre cs where s: "s = pre @ CHR ''<'' # cs" and pre: "CHR ''<'' \<notin> set pre"
    using split_list_first[OF assms(1)] by blast
  have "cs \<noteq> []"
  proof
    assume "cs = []"
    then have "last s = CHR ''<''" using s by simp
    then show False using assms(3) by simp
  qed
  moreover from this have "last cs = CHR ''>''" using s assms(3) by simp
  ultimately show ?thesis using s pre by blast
qed

text \<open>
  What \<^verbatim>\<open>extractTypeInfo\<close> computes.  A type is generic exactly when its text contains
  \<^verbatim>\<open><\<close>.  Its type parameters are empty when the text contains no \<^verbatim>\<open><\<close> or does not
  end with \<^verbatim>\<open>>\<close>.  When the text ends with \<^verbatim>\<open>>\<close> and the part between the first
  \<^verbatim>\<open><\<close> and that final \<^verbatim>\<open>>\<close> is not empty and has no line terminator, the type
  parameters are the ones of the specification: that part split at the commas, each piece
  trimmed.  The text \<^verbatim>\<open>Map<string, Array<number>>\<close> yields \<^verbatim>\<open>string\<close> and
  \<^verbatim>\<open>Array<number>\<close>.
\<close>

lemma type_parameters_when_closed:
  "(isGeneric (extractTypeInfo rawText) \<longleftrightarrow> CHR ''<'' \<in> set rawText)
   \<and> raw (extractTypeInfo rawText) = rawText
   \<and> (CHR ''<'' \<notin> set rawText \<longrightarrow> typeParameters (extractTypeInfo rawText) = [])
   \<and> (rawText = [] \<or> last rawText \<noteq> CHR ''>'' \<longrightarrow> typeParameters (extractTypeInfo rawText) = [])
   \<and> (CHR ''<'' \<in> set rawText \<and> rawText \<noteq> [] \<and> last rawText = CHR ''>''
        \<and> betweenFirstAndFinal rawText \<noteq> []
        \<and> (\<forall>c\<in>set (betweenFirstAndFinal rawText). \<not> isLineTerminator c) \<longrightarrow>
          typeParameters (extractTypeInfo rawText)
            = map trim (splitOn CHR '','' (betweenFirstAndFinal rawText))
        \<and> typeParameters (extractTypeInfo rawText) = typeParametersSpec rawText)
   \<and> typeParameters (extractTypeInfo ''Map<string, Array<number>>'') = [''string'', ''Array<number>'']"
proof -
  have a: "isGeneric (extractTypeInfo rawText) \<longleftrightarrow> CHR ''<'' \<in> set rawText"
    unfolding extractTypeInfo_def by (simp add: str_includes_char)
  have r: "raw (extractTypeInfo rawText) = rawText" unfolding extractTypeInfo_def by simp
  have t: "typeParameters (extractTypeInfo rawText) = extractTypeParameters rawText"
    unfolding extractTypeInfo_def by simp
  have b: "typeParameters (extractTypeInfo rawText) = []" if "CHR ''<'' \<notin> set rawText"
    unfolding t extractTypeParameters_def using that by (simp add: str_includes_char)
  have c: "typeParameters (extractTypeInfo rawText) = []" if "rawText = [] \<or> last rawText \<noteq> CHR ''>''"
    unfolding t extractTypeParameters_def using matchTypeArguments_no_final[OF that] by simp
  have d: "typeParameters (extractTypeInfo rawText)
            = map trim (splitOn CHR '','' (betweenFirstAndFinal rawText))
        \<and> typeParameters (extractTypeInfo rawText) = typeParametersSpec rawText"
    if h: "CHR ''<'' \<in> set rawText \<and> rawText \<noteq> [] \<and> last rawText = CHR ''>''
        \<and> betweenFirstAndFinal rawText \<noteq> []
        \<and> (\<forall>c\<in>set (betweenFirstAndFinal rawText). \<not> isLineTerminator c)"
  proof -
    obtain pre cs where s: "rawText = pre @ CHR ''<'' # cs" and pre: "CHR ''<'' \<notin> set pre"
      and cs: "cs \<noteq> []" "last cs = CHR ''>''"
      using split_at_first[of rawText] h by blast
    have bt: "betweenFirstAndFinal rawText = butlast cs"
      unfolding s by (rule betweenFirstAndFinal_first[OF pre cs])
    have m: "matchTypeArguments rawText = Some (butlast cs)"
      unfolding s using matchTypeArguments_first[OF pre cs] h bt by simp
    have "extractTypeParameters rawText = map trim (splitOn CHR '','' (butlast cs))"
      unfolding extractTypeParameters_def m using h by (simp add: str_includes_char)
    then show ?thesis unfolding t typeParametersSpec_def bt using h by simp
  qed
  have e: "typeParameters (extractTypeInfo ''Map<string, Array<number>>'') = [''string'', ''Array<number>'']"
    unfolding extractTypeInfo_def extractTypeParameters_def
    by (simp add: startsWith_def isLineTerminator_def trim_def isWhiteSpace_def)
  show ?thesis using a r b c d e by (intro conjI impI) blast+
qed

lemma type_parameters_when_closed_sample:
  "CHR ''<'' \<in> set ''Map<string, Array<number>>''
   \<and> last ''Map<string, Array<number>>'' = CHR ''>''
   \<and> betweenFirstAndFinal ''Map<string, Array<number>>'' = ''string, Array<number>''
   \<and> typeParameters (extractTypeInfo ''Map<string, Array<number>>'')
        = typeParametersSpec ''Map<string, Array<number>>''
   \<and> last ''Promise<User>[]'' \<noteq> CHR ''>''
   \<and> typeParameters (extractTypeInfo ''Promise<User>[]'') = []
   \<and> CHR ''<'' \<notin> set ''string''
   \<and> typeParameters (extractTypeInfo ''string'') = []"
proof -
  have 1: "CHR ''<'' \<in> set ''Map<string, Array<number>>''" by simp
  have 2: "last ''Map<string, Array<number>>'' = CHR ''>''" by simp
  have 3: "betweenFirstAndFinal ''Map<string, Array<number>>'' = ''string, Array<number>''"
    by (simp add: betweenFirstAndFinal_def)
  have 4: "\<forall>c\<in>set (betweenFirstAndFinal ''Map<string, Array<number>>''). \<not> isLineTerminator c"
    unfolding 3 by (simp add: isLineTerminator_def)
  have ne: "''Map<string, Array<number>>'' \<noteq> []" by simp
  have ne2: "betweenFirstAndFinal ''Map<string, Array<number>>'' \<noteq> []" unfolding 3 by simp
  have h: "CHR ''<'' \<in> set ''Map<string, Array<number>>'' \<and> ''Map<string, Array<number>>'' \<noteq> []
        \<and> last ''Map<string, Array<number>>'' = CHR ''>''
        \<and> betweenFirstAndFinal ''Map<string, Array<number>>'' \<noteq> []
        \<and> (\<forall>c\<in>set (betweenFirstAndFinal ''Map<string, Array<number>>''). \<not> isLineTerminator c)"
    using 1 ne 2 ne2 4 by (intro conjI)
  have 5: "typeParameters (extractTypeInfo ''Map<string, Array<number>>'')
        = typeParametersSpec ''Map<string, Array<number>>''"
    using type_parameters_when_closed[of "''Map<string, Array<number>>''",
        THEN conjunct2, THEN conjunct2, THEN conjunct2, THEN conjunct2, THEN conjunct1,
        THEN mp, OF h, THEN conjunct2] .
  have 6: "last ''Promise<User>[]'' \<noteq> CHR ''>''" by simp
  have 7: "typeParameters (extractTypeInfo ''Promise<User>[]'') = []"
    using type_parameters_when_closed[of "''Promise<User>[]''",
        THEN conjunct2, THEN conjunct2, THEN conjunct2, THEN conjunct1] 6 by simp
  have 8: "CHR ''<'' \<notin> set ''string''" by simp
  have 9: "typeParameters (extractTypeInfo ''string'') = []"
    using type_parameters_when_closed[of "''string''",
        THEN conjunct2, THEN conjunct2, THEN conjunct1] 8 by simp
  show ?thesis using 1 2 3 5 6 7 8 9 by (intro conjI)
qed

text \<open>
  Claim C6.  The type parameters are to be the text between the first \<^verbatim>\<open><\<close> and the
  final \<^verbatim>\<open>>\<close>, split at the commas and trimmed, as the comment in the code says too.
  For the type \<^verbatim>\<open>Promise<User>[]\<close>, which is generic, that text is \<^verbatim>\<open>User\<close>, but
  the code returns no type parameter: its pattern only matches a text that ends with
  \<^verbatim>\<open>>\<close>.
\<close>

theorem type_parameters_lost_when_not_final:
  "isGeneric (extractTypeInfo ''Promise<User>[]'')
   \<and> typeParameters (extractTypeInfo ''Promise<User>[]'') = []
   \<and> betweenFirstAndFinal ''Promise<User>[]'' = ''User''
   \<and> typeParametersSpec ''Promise<User>[]'' = [''User'']"
  unfolding extractTypeInfo_def extractTypeParameters_def typeParametersSpec_def betweenFirstAndFinal_def
  by (simp add: startsWith_def trim_def isWhiteSpace_def)

section \<open>Module names\<close>

lemma splitOn_nonempty: "splitOn c s \<noteq> []"
  by (induction s) (auto split: list.splits)

lemma splitOn_append: "splitOn c (p @ c # q) = splitOn c p @ splitOn c q"
proof (induction p)
  case Nil
  then show ?case by simp
next
  case (Cons x xs)
  obtain a as where a: "splitOn c xs = a # as" using splitOn_nonempty[of c xs] by (cases "splitOn c xs") auto
  show ?case
  proof (cases "x = c")
    case True
    then show ?thesis using Cons by simp
  next
    case False
    then show ?thesis using Cons a by simp
  qed
qed

lemma lastIndexFrom_none: "lastIndexFrom xs v k = - 1 \<longleftrightarrow> (\<forall>j<k. xs ! j \<noteq> v)"
  by (induction k) (auto simp: less_Suc_eq)

lemma lastIndexFrom_some:
  "lastIndexFrom xs v k = int i \<Longrightarrow> i < k \<and> xs ! i = v \<and> (\<forall>j. i < j \<and> j < k \<longrightarrow> xs ! j \<noteq> v)"
proof (induction k)
  case 0
  then show ?case by simp
next
  case (Suc k)
  show ?case
  proof (cases "xs ! k = v")
    case True
    then have "i = k" using Suc.prems by simp
    then show ?thesis using True by auto
  next
    case False
    then have "lastIndexFrom xs v k = int i" using Suc.prems by simp
    then have "i < k \<and> xs ! i = v \<and> (\<forall>j. i < j \<and> j < k \<longrightarrow> xs ! j \<noteq> v)" by (rule Suc.IH)
    then show ?thesis using False by (auto simp: less_Suc_eq)
  qed
qed

lemma lastIndexFrom_range: "lastIndexFrom xs v k = - 1 \<or> (\<exists>i. lastIndexFrom xs v k = int i)"
  by (induction k) auto

lemma lastIndexOf_absent: "lastIndexOf xs v = - 1 \<longleftrightarrow> v \<notin> set xs"
  unfolding lastIndexOf_def lastIndexFrom_none by (auto simp: in_set_conv_nth)

lemma lastIndexOf_present:
  assumes "v \<in> set xs"
  shows "\<exists>i. lastIndexOf xs v = int i \<and> i < length xs \<and> xs ! i = v
            \<and> drop (Suc i) xs = rev (takeWhile (\<lambda>s. s \<noteq> v) (rev xs))"
proof -
  have "lastIndexOf xs v \<noteq> - 1" using assms lastIndexOf_absent by metis
  then obtain i where i: "lastIndexFrom xs v (length xs) = int i"
    using lastIndexFrom_range[of xs v "length xs"] unfolding lastIndexOf_def by auto
  note p = lastIndexFrom_some[OF i]
  have il: "i < length xs" and iv: "xs ! i = v" using p by auto
  have tailfree: "v \<notin> set (drop (Suc i) xs)"
  proof
    assume "v \<in> set (drop (Suc i) xs)"
    then obtain n where n: "n < length (drop (Suc i) xs)" "drop (Suc i) xs ! n = v"
      by (auto simp: in_set_conv_nth)
    then have "Suc i + n < length xs" "xs ! (Suc i + n) = v" by auto
    then show False using p by auto
  qed
  have dec: "xs = take i xs @ v # drop (Suc i) xs"
    using il iv by (metis id_take_nth_drop)
  have "rev xs = rev (drop (Suc i) xs) @ v # rev (take i xs)"
    by (subst dec) simp
  moreover have "\<forall>x\<in>set (rev (drop (Suc i) xs)). x \<noteq> v" using tailfree by auto
  ultimately have "takeWhile (\<lambda>s. s \<noteq> v) (rev xs) = rev (drop (Suc i) xs)"
    by (simp add: takeWhile_tail)
  then have "drop (Suc i) xs = rev (takeWhile (\<lambda>s. s \<noteq> v) (rev xs))" by simp
  then show ?thesis using i il iv unfolding lastIndexOf_def by blast
qed

lemma update_last: "xs \<noteq> [] \<Longrightarrow> xs[length xs - 1 := y] = butlast xs @ [y]"
  by (induction xs rule: rev_induct) (simp_all add: list_update_append)

lemma nth_last: "xs \<noteq> [] \<Longrightarrow> xs ! (length xs - 1) = last xs"
  by (simp add: last_conv_nth)

lemma endsWith_iff: "endsWith s p \<longleftrightarrow> (\<exists>q. s = q @ p)"
proof
  assume "endsWith s p"
  then have "s = take (length s - length p) s @ p"
    unfolding endsWith_def by (metis append_take_drop_id)
  then show "\<exists>q. s = q @ p" ..
next
  assume "\<exists>q. s = q @ p"
  then show "endsWith s p" unfolding endsWith_def by auto
qed

lemma extension_of_suffix:
  assumes "CHR ''.'' \<notin> set e"
  shows "rev (takeWhile (\<lambda>c. c \<noteq> CHR ''.'') (rev (q @ CHR ''.'' # e))) = e"
proof -
  have "rev (q @ CHR ''.'' # e) = rev e @ CHR ''.'' # rev q" by simp
  moreover have "\<forall>x\<in>set (rev e). x \<noteq> CHR ''.''" using assms by auto
  ultimately have "takeWhile (\<lambda>c. c \<noteq> CHR ''.'') (rev (q @ CHR ''.'' # e)) = rev e"
    by (simp add: takeWhile_tail)
  then show ?thesis by simp
qed

lemma extension_split:
  assumes "CHR ''.'' \<in> set s"
  shows "\<exists>q. s = q @ CHR ''.'' # rev (takeWhile (\<lambda>c. c \<noteq> CHR ''.'') (rev s))"
proof -
  obtain q e where s: "s = q @ CHR ''.'' # e" and e: "CHR ''.'' \<notin> set e"
    using split_list_last[OF assms] by blast
  have "rev (takeWhile (\<lambda>c. c \<noteq> CHR ''.'') (rev s)) = e"
    unfolding s by (rule extension_of_suffix[OF e])
  then show ?thesis using s by auto
qed

lemma endsWith_extension:
  assumes "CHR ''.'' \<notin> set e"
  shows "endsWith s (CHR ''.'' # e) \<longleftrightarrow>
     CHR ''.'' \<in> set s \<and> rev (takeWhile (\<lambda>c. c \<noteq> CHR ''.'') (rev s)) = e"
proof
  assume "endsWith s (CHR ''.'' # e)"
  then obtain q where s: "s = q @ CHR ''.'' # e" unfolding endsWith_iff by blast
  have "rev (takeWhile (\<lambda>c. c \<noteq> CHR ''.'') (rev s)) = e"
    unfolding s by (rule extension_of_suffix[OF assms])
  then show "CHR ''.'' \<in> set s \<and> rev (takeWhile (\<lambda>c. c \<noteq> CHR ''.'') (rev s)) = e"
    using s by simp
next
  assume h: "CHR ''.'' \<in> set s \<and> rev (takeWhile (\<lambda>c. c \<noteq> CHR ''.'') (rev s)) = e"
  then obtain q where "s = q @ CHR ''.'' # e" using extension_split[of s] by auto
  then show "endsWith s (CHR ''.'' # e)" unfolding endsWith_iff by blast
qed

text \<open>The pattern of the code strips exactly the extension of the specification.\<close>

lemma replaceExtension_withoutExtension: "replaceExtension s = withoutExtension s"
proof -
  define ext where "ext = rev (takeWhile (\<lambda>c. c \<noteq> CHR ''.'') (rev s))"
  define dot where "dot = (CHR ''.'' \<in> set s)"
  have ts: "endsWith s ''.ts'' \<longleftrightarrow> dot \<and> ext = ''ts''"
    unfolding ext_def dot_def by (rule endsWith_extension) simp
  have tsx: "endsWith s ''.tsx'' \<longleftrightarrow> dot \<and> ext = ''tsx''"
    unfolding ext_def dot_def by (rule endsWith_extension) simp
  have js: "endsWith s ''.js'' \<longleftrightarrow> dot \<and> ext = ''js''"
    unfolding ext_def dot_def by (rule endsWith_extension) simp
  have jsx: "endsWith s ''.jsx'' \<longleftrightarrow> dot \<and> ext = ''jsx''"
    unfolding ext_def dot_def by (rule endsWith_extension) simp
  have w: "withoutExtension s =
     (if dot \<and> (ext = ''ts'' \<or> ext = ''tsx'' \<or> ext = ''js'' \<or> ext = ''jsx'')
      then take (length s - Suc (length ext)) s else s)"
    unfolding withoutExtension_def recognizedExtensions_def Let_def ext_def dot_def by simp
  have r: "replaceExtension s =
     (if dot \<and> ext = ''ts'' then take (length s - 3) s
      else if dot \<and> ext = ''tsx'' then take (length s - 4) s
      else if dot \<and> ext = ''js'' then take (length s - 3) s
      else if dot \<and> ext = ''jsx'' then take (length s - 4) s
      else s)"
    unfolding replaceExtension_def ts tsx js jsx ..
  show ?thesis
  proof (cases "dot \<and> ext = ''ts''")
    case True
    then show ?thesis unfolding r w by (simp add: eval_nat_numeral)
  next
    case nts: False
    show ?thesis
    proof (cases "dot \<and> ext = ''tsx''")
      case True
      then show ?thesis unfolding r w by (simp add: eval_nat_numeral)
    next
      case ntsx: False
      show ?thesis
      proof (cases "dot \<and> ext = ''js''")
        case True
        then show ?thesis unfolding r w by (simp add: eval_nat_numeral)
      next
        case njs: False
        show ?thesis
        proof (cases "dot \<and> ext = ''jsx''")
          case True
          then show ?thesis unfolding r w by (simp add: eval_nat_numeral)
        next
          case False
          then show ?thesis unfolding r w using nts ntsx njs by auto
        qed
      qed
    qed
  qed
qed

lemma stripFinalExtension_eq:
  "xs \<noteq> [] \<Longrightarrow> stripFinalExtension xs = butlast xs @ [replaceExtension (last xs)]"
  unfolding stripFinalExtension_def replaceExtension_withoutExtension
  by (induction xs rule: rev_induct) simp_all

lemma dropFinalIndex_eq:
  "xs \<noteq> [] \<Longrightarrow> dropFinalIndex xs = (if last xs = ''index'' then butlast xs else xs)"
  unfolding dropFinalIndex_def by (induction xs rule: rev_induct) simp_all

lemma deriveModuleName_refines:
  assumes "last (splitOn CHR ''/'' filePath) \<noteq> ''src''"
  shows "deriveModuleName filePath = Inr (moduleNameSpec filePath)"
proof (cases "''src'' \<in> set (splitOn CHR ''/'' filePath)")
  case False
  then have "lastIndexOf (splitOn CHR ''/'' filePath) ''src'' = - 1" using lastIndexOf_absent by metis
  then show ?thesis
    unfolding deriveModuleName_def moduleNameSpec_def Let_def
    using False nth_last[OF splitOn_nonempty, of "CHR ''/''" filePath]
    by (simp add: replaceExtension_withoutExtension)
next
  case True
  let ?parts = "splitOn CHR ''/'' filePath"
  obtain i where i: "lastIndexOf ?parts ''src'' = int i" "i < length ?parts" "?parts ! i = ''src''"
    and d: "drop (Suc i) ?parts = segmentsAfterLast ''src'' ?parts"
    using lastIndexOf_present[OF True] unfolding segmentsAfterLast_def by blast
  let ?after = "drop (Suc i) ?parts"
  have ne: "?after \<noteq> []"
  proof
    assume "?after = []"
    then have "i = length ?parts - 1" using i(2) by simp
    then have "last ?parts = ''src''" using i(3) nth_last[OF splitOn_nonempty, of "CHR ''/''" filePath] by simp
    then show False using assms by simp
  qed
  let ?a1 = "butlast ?after @ [replaceExtension (last ?after)]"
  have a1: "?after[length ?after - 1 := replaceExtension (last ?after)] = ?a1"
    by (rule update_last[OF ne])
  have a1ne: "?a1 \<noteq> []" by simp
  have s1: "stripFinalExtension ?after = ?a1" by (rule stripFinalExtension_eq[OF ne])
  have s2: "dropFinalIndex ?a1 = (if ?a1 ! (length ?a1 - 1) = ''index'' then butlast ?a1 else ?a1)"
    unfolding dropFinalIndex_eq[OF a1ne] nth_last[OF a1ne] ..
  have n: "nat (int i + 1) = Suc i" by simp
  have "deriveModuleName filePath =
      Inr (join ''.'' (filter (\<lambda>p. p \<noteq> [])
        (if ?a1 ! (length ?a1 - 1) = ''index'' then butlast ?a1 else ?a1)))"
    unfolding deriveModuleName_def Let_def i(1) n a1 using ne by simp
  also have "\<dots> = Inr (moduleNameSpec filePath)"
    unfolding moduleNameSpec_def Let_def d[symmetric] s1 s2 using True by simp
  finally show ?thesis .
qed

lemma withoutExtension_examples:
  "withoutExtension ''client.ts'' = ''client''" "withoutExtension ''index.ts'' = ''index''"
  "withoutExtension ''auth.ts'' = ''auth''"
  unfolding withoutExtension_def recognizedExtensions_def by simp_all

lemma moduleNameSpec_client: "moduleNameSpec (pre @ ''/src/db/client.ts'') = ''db.client''"
proof -
  have s: "splitOn CHR ''/'' (pre @ ''/src/db/client.ts'') = splitOn CHR ''/'' pre @ [''src'', ''db'', ''client.ts'']"
    using splitOn_append[of "CHR ''/''" pre "''src/db/client.ts''"] by simp
  show ?thesis
    unfolding moduleNameSpec_def s Let_def segmentsAfterLast_def stripFinalExtension_def dropFinalIndex_def
    by (simp add: withoutExtension_examples)
qed

lemma moduleNameSpec_index: "moduleNameSpec (pre @ ''/src/index.ts'') = []"
proof -
  have s: "splitOn CHR ''/'' (pre @ ''/src/index.ts'') = splitOn CHR ''/'' pre @ [''src'', ''index.ts'']"
    using splitOn_append[of "CHR ''/''" pre "''src/index.ts''"] by simp
  show ?thesis
    unfolding moduleNameSpec_def s Let_def segmentsAfterLast_def stripFinalExtension_def dropFinalIndex_def
    by (simp add: withoutExtension_examples)
qed

text \<open>
  What \<^verbatim>\<open>deriveModuleName\<close> computes on a path whose final segment is not \<^verbatim>\<open>src\<close>: the
  module name of the specification.  A path ending in \<^verbatim>\<open>/src/db/client.ts\<close> yields
  \<^verbatim>\<open>db.client\<close>, a path ending in \<^verbatim>\<open>/src/index.ts\<close> yields the empty string, and
  \<^verbatim>\<open>/home/user/auth.ts\<close> yields \<^verbatim>\<open>auth\<close>.
\<close>

lemma module_name_derivation:
  "(last (splitOn CHR ''/'' filePath) \<noteq> ''src'' \<longrightarrow>
      deriveModuleName filePath = Inr (moduleNameSpec filePath))
   \<and> deriveModuleName (pre @ ''/src/db/client.ts'') = Inr ''db.client''
   \<and> deriveModuleName (pre @ ''/src/index.ts'') = Inr []
   \<and> deriveModuleName ''/home/user/auth.ts'' = Inr ''auth''"
proof -
  have l1: "last (splitOn CHR ''/'' (pre @ ''/src/db/client.ts'')) \<noteq> ''src''"
    using splitOn_append[of "CHR ''/''" pre "''src/db/client.ts''"] by simp
  have l2: "last (splitOn CHR ''/'' (pre @ ''/src/index.ts'')) \<noteq> ''src''"
    using splitOn_append[of "CHR ''/''" pre "''src/index.ts''"] by simp
  have a: "deriveModuleName (pre @ ''/src/db/client.ts'') = Inr ''db.client''"
    using deriveModuleName_refines[OF l1] moduleNameSpec_client by simp
  have b: "deriveModuleName (pre @ ''/src/index.ts'') = Inr []"
    using deriveModuleName_refines[OF l2] moduleNameSpec_index by simp
  have c: "deriveModuleName ''/home/user/auth.ts'' = Inr ''auth''"
    by (simp add: deriveModuleName_def lastIndexOf_def replaceExtension_def endsWith_def Let_def)
  show ?thesis using deriveModuleName_refines a b c by blast
qed

text \<open>On a path whose final segment is \<^verbatim>\<open>src\<close> the code throws.\<close>

lemma deriveModuleName_final_src:
  assumes "last (splitOn CHR ''/'' filePath) = ''src''"
  shows "deriveModuleName filePath = Inl TypeError"
proof -
  let ?parts = "splitOn CHR ''/'' filePath"
  have ne: "?parts \<noteq> []" by (rule splitOn_nonempty)
  then have mem: "''src'' \<in> set ?parts" using assms last_in_set by metis
  obtain i where i: "lastIndexOf ?parts ''src'' = int i"
    and d: "drop (Suc i) ?parts = rev (takeWhile (\<lambda>s. s \<noteq> ''src'') (rev ?parts))"
    using lastIndexOf_present[OF mem] by blast
  obtain b where b: "?parts = b @ [''src'']"
    using ne assms by (metis append_butlast_last_id)
  have "takeWhile (\<lambda>s. s \<noteq> ''src'') (rev ?parts) = []" unfolding b by simp
  then have e: "drop (Suc i) ?parts = []" using d by simp
  have n: "nat (int i + 1) = Suc i" by simp
  show ?thesis unfolding deriveModuleName_def Let_def i n e by simp
qed

text \<open>
  Claim C4.  The module name is to be derived for every file path: from the segments
  after the last \<^verbatim>\<open>src\<close> segment when there is one.  For the path
  \<^verbatim>\<open>/home/user/project/src\<close> no segment follows the marker and the derivation of the
  specification gives the empty name, but the code reads the final element of an empty
  array and throws a type error.
\<close>

theorem deriveModuleName_throws_after_final_src:
  "deriveModuleName ''/home/user/project/src'' = Inl TypeError
   \<and> moduleNameSpec ''/home/user/project/src'' = []"
  unfolding deriveModuleName_def moduleNameSpec_def Let_def lastIndexOf_def segmentsAfterLast_def
    stripFinalExtension_def dropFinalIndex_def
  by simp

end
